theory Spec2Isabelle
  imports Main "HOL-Library.Multiset" "HOL-Library.AList"
begin

section \<open>JavaScript strings\<close>

text \<open>
  A JavaScript string is a sequence of UTF-16 code units; a code unit is modelled as a
  natural number. \<open>js\<close> turns an ASCII literal into that representation; a code unit
  outside ASCII is written as its number (\<open>243\<close> is U+00F3, the o with acute accent of
  the literal for "codigo" with an accent).
\<close>

type_synonym jsstring = "nat list"

definition js :: "string \<Rightarrow> jsstring" where
  "js s = map of_char s"

text \<open>
  \<open>String.prototype.trim\<close> removes the white space and line terminator code units of
  ECMAScript from both ends.
\<close>

definition isWhiteSpace :: "nat \<Rightarrow> bool" where
  "isWhiteSpace c \<longleftrightarrow>
     c \<in> {9, 10, 11, 12, 13, 32, 160, 5760, 8232, 8233, 8239, 8287, 12288, 65279}
     \<or> (8192 \<le> c \<and> c \<le> 8202)"

definition trim :: "jsstring \<Rightarrow> jsstring" where
  "trim s = rev (dropWhile isWhiteSpace (rev (dropWhile isWhiteSpace s)))"

text \<open>
  \<open>String.prototype.toLowerCase\<close> is a built-in whose full Unicode table is not part
  of the program. It is modelled on the Basic Latin and Latin-1 Supplement blocks, where
  it maps A-Z and U+00C0-U+00DE (without the multiplication sign U+00D7) thirty-two code
  units up; every literal of the program lies in these blocks. Code units above U+00FF
  are left as they are. The general theorems below use of this definition at most that
  the empty string is mapped to the empty string and that no result begins with a
  capital letter A-Z; the rest of it is used only to evaluate the program on concrete
  strings of these two blocks.
\<close>

definition toLowerUnit :: "nat \<Rightarrow> nat" where
  "toLowerUnit c =
     (if (65 \<le> c \<and> c \<le> 90) \<or> (192 \<le> c \<and> c \<le> 222 \<and> c \<noteq> 215) then c + 32 else c)"

definition toLowerCase :: "jsstring \<Rightarrow> jsstring" where
  "toLowerCase s = map toLowerUnit s"

text \<open>\<open>s.includes(t)\<close> on strings: \<open>t\<close> occurs in \<open>s\<close> as a contiguous run.\<close>

fun startsWith :: "jsstring \<Rightarrow> jsstring \<Rightarrow> bool" where
  "startsWith s [] = True"
| "startsWith [] (y # ys) = False"
| "startsWith (x # xs) (y # ys) = (x = y \<and> startsWith xs ys)"

fun str_includes :: "jsstring \<Rightarrow> jsstring \<Rightarrow> bool" where
  "str_includes [] t = (t = [])"
| "str_includes (x # xs) t = (startsWith (x # xs) t \<or> str_includes xs t)"

section \<open>Column Orderer\<close>

text \<open>
  The constant \<open>desiredOrder\<close> of \<open>getOrderedHeaders\<close>; the two GuestTable components
  declare the same twenty entries.
\<close>

definition desiredOrder :: "jsstring list" where
  "desiredOrder =
    [js ''DNI'',
     js ''Apellido'',
     js ''Nombre'',
     js ''Apellido y Nombre'',
     js ''Grupo sangu'' @ [237] @ js ''neo'',
     js ''Tel'' @ [233] @ js ''fono'',
     js ''Ven'' @ [237] @ js ''s acompa'' @ [241] @ js ''ado'',
     js ''Apellido y Nombre del acompa'' @ [241] @ js ''ante'',
     js ''DNI Acompa'' @ [241] @ js ''ante'',
     js ''Contacto de Emergencia'',
     js ''Ten'' @ [233] @ js ''s carnet Vigente?'',
     js ''Ten'' @ [233] @ js ''s Seguro vigente?'',
     js ''Cena show d'' @ [237] @ js ''a s'' @ [225] @ js ''bado 11 (no incluye bebida)'',
     js ''Ten'' @ [233] @ js ''s alguna restricci'' @ [243] @ js ''n alimentaria?'',
     js ''Moto en la que ven'' @ [237] @ js ''s'',
     js ''Ciudad de donde nos visitas'',
     js ''Provincia'',
     js ''Sos al'' @ [233] @ js ''rgico a algo?'',
     js ''A que sos al'' @ [233] @ js ''rgico?'',
     js ''Vas a realizar las rodadas'']"

text \<open>
  Pass 1, the body of the first \<open>desiredOrder.forEach\<close>: \<open>headers.find\<close> gives the first
  header equal to the desired one after trimming and lower-casing; it is pushed when it
  is truthy (a non-empty string) and not yet in \<open>orderedHeaders\<close>.
\<close>

definition exactStep :: "jsstring list \<Rightarrow> jsstring \<Rightarrow> jsstring list \<Rightarrow> jsstring list" where
  "exactStep headers desiredHeader orderedHeaders =
     (case List.find (\<lambda>h. toLowerCase (trim h) = toLowerCase (trim desiredHeader)) headers of
        None \<Rightarrow> orderedHeaders
      | Some exact \<Rightarrow>
          if exact \<noteq> [] \<and> exact \<notin> set orderedHeaders then orderedHeaders @ [exact]
          else orderedHeaders)"

text \<open>
  \<open>headers.forEach((h) => { if (!orderedHeaders.includes(h) && cond(h)) orderedHeaders.push(h) })\<close>,
  the shape of the inner loop of pass 2 and of pass 3.
\<close>

definition pushEach :: "(jsstring \<Rightarrow> bool) \<Rightarrow> jsstring list \<Rightarrow> jsstring list \<Rightarrow> jsstring list" where
  "pushEach cond headers orderedHeaders =
     fold (\<lambda>h acc. if h \<notin> set acc \<and> cond h then acc @ [h] else acc) headers orderedHeaders"

text \<open>The condition of pass 2 in the grid component (sticky columns): containment either way.\<close>

definition partialMatch :: "jsstring \<Rightarrow> jsstring \<Rightarrow> bool" where
  "partialMatch h desiredHeader \<longleftrightarrow>
     str_includes (toLowerCase h) (toLowerCase desiredHeader)
     \<or> str_includes (toLowerCase desiredHeader) (toLowerCase h)"

text \<open>
  The condition of pass 2 in the accordion component: the second disjunct is
  \<open>desiredOrder.includes(h.trim().toLowerCase())\<close>, membership of the lower-cased header
  in the array of desired headers as declared.
\<close>

definition partialMatch_accordion :: "jsstring list \<Rightarrow> jsstring \<Rightarrow> jsstring \<Rightarrow> bool" where
  "partialMatch_accordion desired h desiredHeader \<longleftrightarrow>
     str_includes (toLowerCase h) (toLowerCase desiredHeader)
     \<or> toLowerCase (trim h) \<in> set desired"

text \<open>
  The body of \<open>getOrderedHeaders\<close> of the grid component, with the local constant
  \<open>desiredOrder\<close> as an argument.
\<close>

definition getOrderedHeaders_with :: "jsstring list \<Rightarrow> jsstring list \<Rightarrow> jsstring list" where
  "getOrderedHeaders_with desired headers =
     (let pass1 = fold (exactStep headers) desired [];
          pass2 = fold (\<lambda>desiredHeader. pushEach (\<lambda>h. partialMatch h desiredHeader) headers)
                    desired pass1
      in pushEach (\<lambda>h. True) headers pass2)"

definition getOrderedHeaders :: "jsstring list \<Rightarrow> jsstring list" where
  "getOrderedHeaders headers = getOrderedHeaders_with desiredOrder headers"

text \<open>The same for \<open>getOrderedHeaders\<close> of the accordion component.\<close>

definition getOrderedHeaders_accordion_with :: "jsstring list \<Rightarrow> jsstring list \<Rightarrow> jsstring list" where
  "getOrderedHeaders_accordion_with desired headers =
     (let pass1 = fold (exactStep headers) desired [];
          pass2 = fold (\<lambda>desiredHeader.
                      pushEach (\<lambda>h. partialMatch_accordion desired h desiredHeader) headers)
                    desired pass1
      in pushEach (\<lambda>h. True) headers pass2)"

definition getOrderedHeaders_accordion :: "jsstring list \<Rightarrow> jsstring list" where
  "getOrderedHeaders_accordion headers = getOrderedHeaders_accordion_with desiredOrder headers"

section \<open>Values, rows and Guest Identifiers\<close>

text \<open>
  Cells are of type \<open>any\<close>. The values that reach the program are \<open>undefined\<close>,
  \<open>null\<close>, booleans, numbers and strings. Numbers are modelled as integers: a cell
  that holds a number with a fractional part is outside the model.
\<close>

datatype jsval = JUndefined | JNull | JBool bool | JNum int | JStr jsstring

text \<open>The decimal digits of a natural number, as \<open>Number.prototype.toString\<close> writes them.\<close>

fun digits :: "nat \<Rightarrow> jsstring" where
  "digits n = (if n < 10 then [48 + n] else digits (n div 10) @ [48 + n mod 10])"

declare digits.simps [simp del]

definition numberToString :: "int \<Rightarrow> jsstring" where
  "numberToString n = (if n < 0 then 45 # digits (nat (- n)) else digits (nat n))"

text \<open>
  \<open>v.toString()\<close>. On \<open>undefined\<close> and \<open>null\<close> the result is \<open>None\<close>: the call
  \<open>v?.toString()\<close> yields \<open>undefined\<close> there, and the program makes the plain call
  only behind a test that excludes both.
\<close>

fun toString :: "jsval \<Rightarrow> jsstring option" where
  "toString JUndefined = None"
| "toString JNull = None"
| "toString (JBool b) = Some (if b then js ''true'' else js ''false'')"
| "toString (JNum n) = Some (numberToString n)"
| "toString (JStr s) = Some s"

text \<open>Truthiness, as \<open>if (v)\<close> and \<open>v || w\<close> test it.\<close>

fun truthy :: "jsval \<Rightarrow> bool" where
  "truthy JUndefined = False"
| "truthy JNull = False"
| "truthy (JBool b) = b"
| "truthy (JNum n) = (n \<noteq> 0)"
| "truthy (JStr s) = (s \<noteq> [])"

text \<open>
  A row is an object with string keys: the list of its properties in insertion order.
  \<open>row[field]\<close> is \<open>undefined\<close> for a missing property; \<open>Object.values(row)\<close> is
  \<open>map snd row\<close>. Setting a property (\<open>AList.update\<close>) replaces the value in place or
  appends the property.
\<close>

type_synonym row = "(jsstring \<times> jsval) list"

definition getProp :: "row \<Rightarrow> jsstring \<Rightarrow> jsval" where
  "getProp r field = (case map_of r field of None \<Rightarrow> JUndefined | Some v \<Rightarrow> v)"

text \<open>The template literals \<open>guest_${index + 1}\<close> and \<open>guest_${index}\<close>.\<close>

definition guest_n :: "nat \<Rightarrow> jsstring" where
  "guest_n n = js ''guest_'' @ numberToString (int n)"

subsection \<open>Persistence path: the identifier computed in \<open>saveGuestsToSupabase\<close>\<close>

text \<open>The predicate of \<open>headers.find\<close>; 243 is the accented o of the second literal.\<close>

definition isIdHeader :: "jsstring \<Rightarrow> bool" where
  "isIdHeader header \<longleftrightarrow>
     str_includes (toLowerCase header) (js ''id'')
     \<or> str_includes (toLowerCase header) (js ''c'' @ [243] @ js ''digo'')
     \<or> str_includes (toLowerCase header) (js ''codigo'')"

text \<open>
  \<open>idField ? row[idField]?.toString() || `guest_${index + 1}` : `guest_${index + 1}`\<close>,
  with \<open>index\<close> the position of the row in \<open>data\<close>, counted from 0.
\<close>

definition guestIdOf :: "jsstring list \<Rightarrow> row \<Rightarrow> nat \<Rightarrow> jsstring" where
  "guestIdOf headers r index =
     (case List.find isIdHeader headers of
        None \<Rightarrow> guest_n (index + 1)
      | Some idField \<Rightarrow>
          if idField = [] then guest_n (index + 1)
          else (case toString (getProp r idField) of
                  None \<Rightarrow> guest_n (index + 1)
                | Some s \<Rightarrow> if s = [] then guest_n (index + 1) else s))"

text \<open>The objects handed to \<open>insert\<close>.\<close>

record new_guest =
  new_guest_id :: jsstring
  new_guest_data :: row
  new_confirmed :: bool

definition guestsToInsert :: "row list \<Rightarrow> jsstring list \<Rightarrow> new_guest list" where
  "guestsToInsert data headers =
     map (\<lambda>(index, r). \<lparr>new_guest_id = guestIdOf headers r index, new_guest_data = r,
                          new_confirmed = False\<rparr>)
       (enumerate 0 data)"

subsection \<open>Display path: \<open>getGuestId\<close> of the GuestTable components\<close>

definition possibleIdFields :: "jsstring list" where
  "possibleIdFields =
     [js ''id'', js ''ID'', js ''Id'', js ''c'' @ [243] @ js ''digo'', js ''codigo'',
      js ''C'' @ [243] @ js ''digo'', js ''Codigo'']"

text \<open>The \<open>for\<close> loop over \<open>possibleIdFields\<close>: the first field that is set decides.\<close>

fun firstIdField :: "row \<Rightarrow> jsstring list \<Rightarrow> jsstring option" where
  "firstIdField r [] = None"
| "firstIdField r (field # rest) =
     (if getProp r field \<noteq> JUndefined \<and> getProp r field \<noteq> JNull \<and> getProp r field \<noteq> JStr []
      then toString (getProp r field)
      else firstIdField r rest)"

text \<open>
  \<open>getGuestId(row, index)\<close> returns \<open>row._guest_id\<close> itself when it is truthy, so the
  result is a value; the other two branches return strings. In both components the
  table body calls it as \<open>filteredData.map((row, index) => getGuestId(row, index))\<close>,
  so \<open>index\<close> is the position among the rows displayed, counted from 0.
\<close>

definition getGuestId :: "row \<Rightarrow> nat \<Rightarrow> jsval" where
  "getGuestId r index =
     (if truthy (getProp r (js ''_guest_id'')) then getProp r (js ''_guest_id'')
      else (case firstIdField r possibleIdFields of
              Some s \<Rightarrow> JStr s
            | None \<Rightarrow> JStr (guest_n index)))"

section \<open>Delimited-text parsing: the options of \<open>processCSVFile\<close>\<close>

text \<open>
  \<open>processCSVFile\<close> hands the file to \<open>Papa.parse\<close> with the options below. The parser
  is a library outside the repository; what the program decides is the options.
\<close>

record papa_config =
  header :: bool
  skipEmptyLines :: bool
  dynamicTyping :: bool
  encoding :: jsstring
  delimitersToGuess :: "jsstring list"

definition processCSVFile_config :: papa_config where
  "processCSVFile_config =
     \<lparr>header = True, skipEmptyLines = True, dynamicTyping = True, encoding = js ''UTF-8'',
      delimitersToGuess = [js '','', js '';'', [9], js ''|'']\<rparr>"

definition isDigit :: "nat \<Rightarrow> bool" where
  "isDigit c \<longleftrightarrow> 48 \<le> c \<and> c \<le> 57"

definition isIntegerLiteral :: "jsstring \<Rightarrow> bool" where
  "isIntegerLiteral s =
     (case s of
        [] \<Rightarrow> False
      | c # cs \<Rightarrow> if c = 45 then cs \<noteq> [] \<and> list_all isDigit cs else list_all isDigit s)"

definition digitsValue :: "jsstring \<Rightarrow> nat" where
  "digitsValue ds = fold (\<lambda>c a. 10 * a + (c - 48)) ds 0"

definition integerValue :: "jsstring \<Rightarrow> int" where
  "integerValue s =
     (case s of
        [] \<Rightarrow> 0
      | c # cs \<Rightarrow> if c = 45 then - int (digitsValue cs) else int (digitsValue s))"

text \<open>
  The conversion of one cell by the library when \<open>dynamicTyping\<close> is set, modelled from
  the library's documentation ("numeric and boolean data will be converted to their
  type instead of remaining strings"; numbers beyond 2^53 in magnitude are not
  converted): the four boolean literals become booleans, a decimal integer literal
  below 2^53 in magnitude becomes a number, a non-empty text without any digit is
  neither and stays the string it is. The result \<open>None\<close> stands for the cells this
  model leaves open (other numeric notations, dates, the empty cell, texts with digits).
\<close>

definition parseDynamic :: "jsstring \<Rightarrow> jsval option" where
  "parseDynamic value =
     (if value = js ''true'' \<or> value = js ''TRUE'' then Some (JBool True)
      else if value = js ''false'' \<or> value = js ''FALSE'' then Some (JBool False)
      else if isIntegerLiteral value then
        (if \<bar>integerValue value\<bar> < 2 ^ 53 then Some (JNum (integerValue value)) else None)
      else if value \<noteq> [] \<and> \<not> list_ex isDigit value then Some (JStr value)
      else None)"

text \<open>The value a cell of the file has in the parsed row, under given options.\<close>

definition parsedCell :: "papa_config \<Rightarrow> jsstring \<Rightarrow> jsval option" where
  "parsedCell cfg value = (if dynamicTyping cfg then parseDynamic value else Some (JStr value))"

text \<open>
  The checks of the \<open>complete\<close> callback between the parse and the call of
  \<open>saveGuestsToSupabase\<close>: rows and headers are present, and a row is kept when
  some value of it is not \<open>null\<close>, \<open>undefined\<close> or the empty string.
\<close>

definition isValidRow :: "row \<Rightarrow> bool" where
  "isValidRow r =
     list_ex (\<lambda>value. value \<noteq> JNull \<and> value \<noteq> JUndefined \<and> value \<noteq> JStr []) (map snd r)"

definition validData :: "row list \<Rightarrow> row list" where
  "validData data = filter isValidRow data"

definition acceptedUpload :: "row list \<Rightarrow> jsstring list \<Rightarrow> bool" where
  "acceptedUpload data headers \<longleftrightarrow>
     data \<noteq> [] \<and> headers \<noteq> [] \<and> validData data \<noteq> [] \<and> validData data = data"

section \<open>The guests table and the requests against it\<close>

text \<open>
  A row of the table \<open>public.guests\<close> of the migration. The column \<open>id\<close> is named
  \<open>id_uuid\<close> here; instants are natural numbers.
\<close>

record guest =
  id_uuid :: jsstring
  guest_id :: jsstring
  guest_data :: row
  confirmed :: bool
  confirmed_at :: "nat option"
  created_at :: nat
  updated_at :: nat

type_synonym guests_table = "guest list"

text \<open>
  The client library answers a request with an object whose \<open>error\<close> is set when the
  request failed; it does not throw. A request can fail for a reason outside the
  table (network, service): that is the argument \<open>fault\<close> of each request below, and a
  request that fails so changes nothing.
\<close>

datatype db_error = DbError (message: jsstring)

definition zero_uuid :: jsstring where
  "zero_uuid = js ''00000000-0000-0000-0000-000000000000''"

text \<open>\<open>from('guests').delete().neq('id', x)\<close>: the rows whose \<open>id\<close> differs from \<open>x\<close> go.\<close>

definition db_delete_neq_id ::
  "db_error option \<Rightarrow> jsstring \<Rightarrow> guests_table \<Rightarrow> db_error option \<times> guests_table" where
  "db_delete_neq_id fault x t =
     (case fault of
        Some e \<Rightarrow> (Some e, t)
      | None \<Rightarrow> (None, filter (\<lambda>g. \<not> id_uuid g \<noteq> x) t))"

text \<open>The message of a unique violation names the index in double quotes (code unit 34).\<close>

definition unique_violation :: "jsstring \<Rightarrow> db_error" where
  "unique_violation index_name =
     DbError (js ''duplicate key value violates unique constraint '' @ [34] @ index_name @ [34])"

text \<open>
  \<open>from('guests').insert(rows)\<close>, one statement. The defaults of the migration fill the
  other columns: \<open>id\<close> by \<open>gen_random_uuid()\<close> (\<open>gen k\<close> for the row at position
  \<open>k\<close>), \<open>confirmed_at\<close> null, \<open>created_at\<close> and \<open>updated_at\<close> the instant of the
  statement. The primary key and the unique index \<open>idx_guests_guest_id\<close> reject the
  whole statement, with nothing inserted, when a key would occur twice.
\<close>

definition inserted_rows :: "nat \<Rightarrow> (nat \<Rightarrow> jsstring) \<Rightarrow> new_guest list \<Rightarrow> guest list" where
  "inserted_rows now gen rows =
     map (\<lambda>(k, n). \<lparr>id_uuid = gen k, guest_id = new_guest_id n, guest_data = new_guest_data n,
                      confirmed = new_confirmed n, confirmed_at = None, created_at = now,
                      updated_at = now\<rparr>)
       (enumerate 0 rows)"

definition db_insert ::
  "db_error option \<Rightarrow> nat \<Rightarrow> (nat \<Rightarrow> jsstring) \<Rightarrow> new_guest list \<Rightarrow> guests_table
     \<Rightarrow> db_error option \<times> guests_table" where
  "db_insert fault now gen rows t =
     (case fault of
        Some e \<Rightarrow> (Some e, t)
      | None \<Rightarrow>
          (let t' = t @ inserted_rows now gen rows
           in if \<not> distinct (map id_uuid t') then
                (Some (unique_violation (js ''guests_pkey'')), t)
              else if \<not> distinct (map guest_id t') then
                (Some (unique_violation (js ''idx_guests_guest_id'')), t)
              else (None, t')))"

text \<open>
  \<open>from('guests').update({confirmed: c, confirmed_at: ca}).eq('guest_id', guestId)\<close>:
  every row with that \<open>guest_id\<close> is updated, and the trigger of the migration sets
  \<open>updated_at\<close>. A statement that matches no row is not an error.
\<close>

definition db_update_confirmed ::
  "db_error option \<Rightarrow> nat \<Rightarrow> jsstring \<Rightarrow> bool \<Rightarrow> nat option \<Rightarrow> guests_table
     \<Rightarrow> db_error option \<times> guests_table" where
  "db_update_confirmed fault now guestId c ca t =
     (case fault of
        Some e \<Rightarrow> (Some e, t)
      | None \<Rightarrow>
          (None, map (\<lambda>g. if guest_id g = guestId
                           then g\<lparr>confirmed := c, confirmed_at := ca, updated_at := now\<rparr>
                           else g) t))"

section \<open>Persistence Gateway: \<open>saveGuestsToSupabase\<close>\<close>

datatype toast_variant = DefaultVariant | Destructive

record toast =
  title :: jsstring
  description :: jsstring
  variant :: toast_variant

record save_env =
  delete_fault :: "db_error option"
  insert_fault :: "db_error option"
  insert_now :: nat
  gen_uuid :: "nat \<Rightarrow> jsstring"

text \<open>
  The function awaits the delete and does not look at its answer; it builds
  \<open>guestsToInsert\<close>, awaits the insert and throws \<open>insertError\<close> when it is set. The
  \<open>catch\<close> of the same function turns what was thrown into the toast "Error al
  guardar" and the function returns normally. The result is the table afterwards and
  the toast shown.
\<close>

definition saveGuestsToSupabase ::
  "save_env \<Rightarrow> row list \<Rightarrow> jsstring list \<Rightarrow> guests_table \<Rightarrow> guests_table \<times> toast" where
  "saveGuestsToSupabase env data headers t =
     (let t1 = snd (db_delete_neq_id (delete_fault env) zero_uuid t);
          rows = guestsToInsert data headers;
          (insertError, t2) = db_insert (insert_fault env) (insert_now env) (gen_uuid env) rows t1
      in case insertError of
           Some e \<Rightarrow>
             (t2, \<lparr>title = js ''Error al guardar'',
                   description =
                     (if message e \<noteq> [] then message e
                      else js ''No se pudieron guardar los datos en la base de datos.''),
                   variant = Destructive\<rparr>)
         | None \<Rightarrow>
             (t2, \<lparr>title = js ''Datos guardados'',
                   description =
                     numberToString (int (length rows))
                       @ js '' invitados guardados en la base de datos.'',
                   variant = DefaultVariant\<rparr>))"

section \<open>Confirmation toggle: \<open>handleConfirmGuest\<close>\<close>

record confirm_env =
  update_fault :: "db_error option"
  client_now :: nat
  update_now :: nat

text \<open>
  The state the function works on is the table and the component's \<open>confirmedGuests\<close>
  set. \<open>isCurrentlyConfirmed\<close> is read from that set; the request writes its negation.
  When the answer carries an error the set is left alone and the toast "Error al
  actualizar" is shown; otherwise the identifier is toggled in the set.
\<close>

definition handleConfirmGuest ::
  "confirm_env \<Rightarrow> jsstring \<Rightarrow> guests_table \<times> jsstring set
     \<Rightarrow> guests_table \<times> jsstring set \<times> toast" where
  "handleConfirmGuest env guestId state =
     (let t = fst state;
          confirmedGuests = snd state;
          isCurrentlyConfirmed = (guestId \<in> confirmedGuests);
          (error, t') =
            db_update_confirmed (update_fault env) (update_now env) guestId
              (\<not> isCurrentlyConfirmed)
              (if \<not> isCurrentlyConfirmed then Some (client_now env) else None) t
      in case error of
           Some e \<Rightarrow>
             (t', confirmedGuests,
              \<lparr>title = js ''Error al actualizar'',
               description = js ''No se pudo actualizar el estado del invitado.'',
               variant = Destructive\<rparr>)
         | None \<Rightarrow>
             (t',
              (if guestId \<in> confirmedGuests then confirmedGuests - {guestId}
               else insert guestId confirmedGuests),
              \<lparr>title =
                 (if isCurrentlyConfirmed then js ''Confirmaci'' @ [243] @ js ''n cancelada''
                  else js ''Invitado confirmado''),
               description =
                 js ''El invitado '' @ guestId @ js '' ha sido ''
                   @ (if isCurrentlyConfirmed then js ''des'' else []) @ js ''confirmado.'',
               variant = DefaultVariant\<rparr>))"

text \<open>
  \<open>loadGuestsFromSupabase\<close> sets \<open>confirmedGuests\<close> to the identifiers of the
  confirmed rows it has read.
\<close>

definition confirmedOf :: "guest list \<Rightarrow> jsstring set" where
  "confirmedOf guests = set (map guest_id (filter confirmed guests))"

section \<open>Display rows and search\<close>

text \<open>
  \<open>{...g.guest_data, _supabase_id: g.id, _guest_id: g.guest_id}\<close>: the two properties
  are set after the spread, in this order.
\<close>

definition augment :: "guest \<Rightarrow> row" where
  "augment g =
     AList.update (js ''_guest_id'') (JStr (guest_id g))
       (AList.update (js ''_supabase_id'') (JStr (id_uuid g)) (guest_data g))"

definition currentData :: "guest list \<Rightarrow> row list \<Rightarrow> row list" where
  "currentData supabaseGuests data =
     (if length supabaseGuests > 0 then map augment supabaseGuests else data)"

text \<open>\<open>value?.toString().toLowerCase().includes(searchTerm.toLowerCase())\<close>\<close>

definition valueMatches :: "jsstring \<Rightarrow> jsval \<Rightarrow> bool" where
  "valueMatches searchTerm value =
     (case toString value of
        None \<Rightarrow> False
      | Some s \<Rightarrow> str_includes (toLowerCase s) (toLowerCase searchTerm))"

definition filteredData :: "row list \<Rightarrow> jsstring \<Rightarrow> row list" where
  "filteredData rows searchTerm =
     (if trim searchTerm = [] then rows
      else filter (\<lambda>r. list_ex (valueMatches searchTerm) (map snd r)) rows)"

text \<open>
  What the grid component renders: the card "No hay invitados cargados" when
  \<open>currentData\<close> is empty, the card "Invitado no encontrado" when the filter leaves
  nothing and \<open>searchTerm\<close> is truthy, the table of the filtered rows otherwise.
\<close>

datatype view = NoGuestsLoaded | GuestNotFound jsstring | GuestRows "row list"

definition render :: "guest list \<Rightarrow> row list \<Rightarrow> jsstring \<Rightarrow> view" where
  "render supabaseGuests data searchTerm =
     (let rows = currentData supabaseGuests data;
          shown = filteredData rows searchTerm
      in if length rows = 0 then NoGuestsLoaded
         else if length shown = 0 \<and> searchTerm \<noteq> [] then GuestNotFound searchTerm
         else GuestRows shown)"

section \<open>Properties of the Column Orderer\<close>

lemma fold_invariant:
  assumes "P acc" and "\<And>x a. P a \<Longrightarrow> P (f x a)"
  shows "P (fold f xs acc)"
  using assms(1)
proof (induction xs arbitrary: acc)
  case Nil
  then show ?case by simp
next
  case (Cons x xs)
  from Cons.prems have "P (f x acc)" by (rule assms(2))
  then have "P (fold f xs (f x acc))" by (rule Cons.IH)
  then show ?case by simp
qed

lemma pushEach_distinct: "distinct acc \<Longrightarrow> distinct (pushEach c hs acc)"
  unfolding pushEach_def by (induction hs arbitrary: acc) auto

lemma pushEach_mono: "set acc \<subseteq> set (pushEach c hs acc)"
  unfolding pushEach_def
proof (induction hs arbitrary: acc)
  case Nil
  show ?case by simp
next
  case (Cons h hs)
  let ?a = "if h \<notin> set acc \<and> c h then acc @ [h] else acc"
  have "set acc \<subseteq> set ?a" by auto
  also have "\<dots> \<subseteq> set (fold (\<lambda>h acc. if h \<notin> set acc \<and> c h then acc @ [h] else acc) hs ?a)"
    by (rule Cons.IH)
  finally show ?case by simp
qed

lemma pushEach_subset: "set (pushEach c hs acc) \<subseteq> set acc \<union> set hs"
  unfolding pushEach_def
proof (induction hs arbitrary: acc)
  case Nil
  show ?case by simp
next
  case (Cons h hs)
  let ?a = "if h \<notin> set acc \<and> c h then acc @ [h] else acc"
  have "set (fold (\<lambda>h acc. if h \<notin> set acc \<and> c h then acc @ [h] else acc) hs ?a)
          \<subseteq> set ?a \<union> set hs"
    by (rule Cons.IH)
  also have "\<dots> \<subseteq> set acc \<union> set (h # hs)" by auto
  finally show ?case by simp
qed

lemma pushEach_all_set: "set (pushEach (\<lambda>h. True) hs acc) = set acc \<union> set hs"
proof
  show "set (pushEach (\<lambda>h. True) hs acc) \<subseteq> set acc \<union> set hs"
    by (rule pushEach_subset)
  have "set hs \<subseteq> set (pushEach (\<lambda>h. True) hs acc)"
  proof (induction hs arbitrary: acc)
    case Nil
    show ?case by simp
  next
    case (Cons h hs)
    let ?a = "if h \<notin> set acc then acc @ [h] else acc"
    have e: "pushEach (\<lambda>h. True) (h # hs) acc = pushEach (\<lambda>h. True) hs ?a"
      by (simp add: pushEach_def)
    have "h \<in> set ?a" by simp
    with pushEach_mono [of ?a "\<lambda>h. True" hs]
    have "h \<in> set (pushEach (\<lambda>h. True) hs ?a)" by blast
    moreover have "set hs \<subseteq> set (pushEach (\<lambda>h. True) hs ?a)" by (rule Cons.IH)
    ultimately show ?case unfolding e by simp
  qed
  with pushEach_mono [of acc "\<lambda>h. True" hs]
  show "set acc \<union> set hs \<subseteq> set (pushEach (\<lambda>h. True) hs acc)" by blast
qed

lemma exactStep_distinct: "distinct acc \<Longrightarrow> distinct (exactStep hs d acc)"
  unfolding exactStep_def by (auto split: option.splits)

lemma exactStep_subset: "set (exactStep hs d acc) \<subseteq> set acc \<union> set hs"
  unfolding exactStep_def by (auto split: option.splits simp: find_Some_iff)

text \<open>
  Between the passes \<open>orderedHeaders\<close> has no repetition and holds only headers of the
  input; every step of pass 1 and pass 2 keeps that.
\<close>

lemma exactStep_keeps:
  "distinct acc \<and> set acc \<subseteq> set hs \<Longrightarrow>
   distinct (exactStep hs d acc) \<and> set (exactStep hs d acc) \<subseteq> set hs"
  using exactStep_distinct [of acc hs d] exactStep_subset [of hs d acc] by blast

lemma pushEach_keeps:
  "distinct acc \<and> set acc \<subseteq> set hs \<Longrightarrow>
   distinct (pushEach c hs acc) \<and> set (pushEach c hs acc) \<subseteq> set hs"
  using pushEach_distinct [of acc c hs] pushEach_subset [of c hs acc] by blast

lemma pass1_keeps:
  "distinct (fold (exactStep hs) ds []) \<and> set (fold (exactStep hs) ds []) \<subseteq> set hs"
proof (rule fold_invariant [where P = "\<lambda>acc. distinct acc \<and> set acc \<subseteq> set hs"])
  show "distinct [] \<and> set [] \<subseteq> set hs" by simp
next
  fix d acc
  assume "distinct acc \<and> set acc \<subseteq> set hs"
  then show "distinct (exactStep hs d acc) \<and> set (exactStep hs d acc) \<subseteq> set hs"
    by (rule exactStep_keeps)
qed

lemma pass2_keeps:
  assumes "distinct acc \<and> set acc \<subseteq> set hs"
  shows "distinct (fold (\<lambda>d. pushEach (c d) hs) ds acc)
         \<and> set (fold (\<lambda>d. pushEach (c d) hs) ds acc) \<subseteq> set hs"
proof (rule fold_invariant [where P = "\<lambda>acc. distinct acc \<and> set acc \<subseteq> set hs"])
  show "distinct acc \<and> set acc \<subseteq> set hs" by (rule assms)
next
  fix d a
  assume "distinct a \<and> set a \<subseteq> set hs"
  then show "distinct (pushEach (c d) hs a) \<and> set (pushEach (c d) hs a) \<subseteq> set hs"
    by (rule pushEach_keeps)
qed

lemma last_pass_once:
  assumes "distinct acc \<and> set acc \<subseteq> set hs"
  shows "distinct (pushEach (\<lambda>h. True) hs acc) \<and> set (pushEach (\<lambda>h. True) hs acc) = set hs"
proof
  from assms show "distinct (pushEach (\<lambda>h. True) hs acc)"
    by (simp add: pushEach_distinct)
  from assms show "set (pushEach (\<lambda>h. True) hs acc) = set hs"
    unfolding pushEach_all_set by blast
qed

lemma getOrderedHeaders_with_once:
  "distinct (getOrderedHeaders_with desired hs) \<and> set (getOrderedHeaders_with desired hs) = set hs"
  unfolding getOrderedHeaders_with_def Let_def
  by (rule last_pass_once, rule pass2_keeps, rule pass1_keeps)

lemma getOrderedHeaders_accordion_with_once:
  "distinct (getOrderedHeaders_accordion_with desired hs)
   \<and> set (getOrderedHeaders_accordion_with desired hs) = set hs"
  unfolding getOrderedHeaders_accordion_with_def Let_def
  by (rule last_pass_once, rule pass2_keeps, rule pass1_keeps)

lemma once_permutation:
  "distinct out \<and> set out = set hs \<Longrightarrow>
   distinct out \<and> set out = set hs \<and> (distinct hs \<longrightarrow> mset out = mset hs)"
  using set_eq_iff_mset_eq_distinct [of out hs] by blast

lemma distinct_singleton_set: "distinct xs \<and> set xs = {a} \<Longrightarrow> xs = [a]"
proof (cases xs)
  case Nil
  assume "distinct xs \<and> set xs = {a}"
  with Nil show ?thesis by simp
next
  case (Cons y ys)
  assume h: "distinct xs \<and> set xs = {a}"
  with Cons have "y = a" by auto
  moreover from h Cons have "set ys \<subseteq> {a}" and "y \<notin> set ys" by auto
  ultimately have "ys = []" by (cases ys) auto
  with Cons \<open>y = a\<close> show ?thesis by simp
qed

lemmas orderer_eval =
  getOrderedHeaders_def getOrderedHeaders_with_def getOrderedHeaders_accordion_def
  getOrderedHeaders_accordion_with_def exactStep_def pushEach_def partialMatch_def
  partialMatch_accordion_def desiredOrder_def js_def toLowerCase_def toLowerUnit_def trim_def
  isWhiteSpace_def Let_def

text \<open>
  Claim C1, as the code has it. Each of the two \<open>getOrderedHeaders\<close> is a function
  of the list of headers alone. For every list of headers it returns a list without
  repetition that holds exactly the headers of its input, so every header of the input
  is placed once, none is lost and none is placed twice; when no header is repeated in
  the input, the result is a permutation of the input. The same holds with any list in
  the place of \<open>desiredOrder\<close>.
\<close>

theorem getOrderedHeaders_every_header_once:
  "(distinct (getOrderedHeaders headers) \<and> set (getOrderedHeaders headers) = set headers
      \<and> (distinct headers \<longrightarrow> mset (getOrderedHeaders headers) = mset headers))
   \<and> (distinct (getOrderedHeaders_accordion headers)
      \<and> set (getOrderedHeaders_accordion headers) = set headers
      \<and> (distinct headers \<longrightarrow> mset (getOrderedHeaders_accordion headers) = mset headers))
   \<and> (distinct (getOrderedHeaders_with desired headers)
      \<and> set (getOrderedHeaders_with desired headers) = set headers
      \<and> (distinct headers \<longrightarrow> mset (getOrderedHeaders_with desired headers) = mset headers))
   \<and> (distinct (getOrderedHeaders_accordion_with desired headers)
      \<and> set (getOrderedHeaders_accordion_with desired headers) = set headers
      \<and> (distinct headers \<longrightarrow>
            mset (getOrderedHeaders_accordion_with desired headers) = mset headers))"
proof (intro conjI)
  show "distinct (getOrderedHeaders headers)"
    and "set (getOrderedHeaders headers) = set headers"
    and "distinct headers \<longrightarrow> mset (getOrderedHeaders headers) = mset headers"
    using once_permutation [OF getOrderedHeaders_with_once [of desiredOrder headers]]
    by (simp_all add: getOrderedHeaders_def)
  show "distinct (getOrderedHeaders_accordion headers)"
    and "set (getOrderedHeaders_accordion headers) = set headers"
    and "distinct headers \<longrightarrow> mset (getOrderedHeaders_accordion headers) = mset headers"
    using once_permutation [OF getOrderedHeaders_accordion_with_once [of desiredOrder headers]]
    by (simp_all add: getOrderedHeaders_accordion_def)
  show "distinct (getOrderedHeaders_with desired headers)"
    and "set (getOrderedHeaders_with desired headers) = set headers"
    and "distinct headers \<longrightarrow> mset (getOrderedHeaders_with desired headers) = mset headers"
    using once_permutation [OF getOrderedHeaders_with_once [of desired headers]]
    by simp_all
  show "distinct (getOrderedHeaders_accordion_with desired headers)"
    and "set (getOrderedHeaders_accordion_with desired headers) = set headers"
    and "distinct headers \<longrightarrow>
           mset (getOrderedHeaders_accordion_with desired headers) = mset headers"
    using once_permutation [OF getOrderedHeaders_accordion_with_once [of desired headers]]
    by simp_all
qed

text \<open>
  The theorem at the headers Nombre, DNI, which are distinct: what each component
  returns is a permutation of them.
\<close>

theorem getOrderedHeaders_every_header_once_witness:
  "distinct [js ''Nombre'', js ''DNI'']
   \<and> mset (getOrderedHeaders [js ''Nombre'', js ''DNI'']) = mset [js ''Nombre'', js ''DNI'']
   \<and> mset (getOrderedHeaders_accordion [js ''Nombre'', js ''DNI''])
       = mset [js ''Nombre'', js ''DNI'']"
proof -
  have d: "distinct [js ''Nombre'', js ''DNI'']" by (simp add: js_def)
  from d getOrderedHeaders_every_header_once [of "[js ''Nombre'', js ''DNI'']" desiredOrder]
  show ?thesis by blast
qed

text \<open>
  Claim C1 as it is worded asks for a permutation of every list. A list that repeats a
  header (two columns of a spreadsheet with the same name) is not permuted: the repeated
  header is placed once, so the result is shorter than the input.
\<close>

theorem getOrderedHeaders_repeated_header_counterexample:
  "getOrderedHeaders [js ''Nombre'', js ''Nombre''] = [js ''Nombre'']
   \<and> getOrderedHeaders_accordion [js ''Nombre'', js ''Nombre''] = [js ''Nombre'']
   \<and> mset (getOrderedHeaders [js ''Nombre'', js ''Nombre''])
       \<noteq> mset [js ''Nombre'', js ''Nombre'']"
proof -
  let ?hs = "[js ''Nombre'', js ''Nombre'']"
  have g: "getOrderedHeaders ?hs = [js ''Nombre'']"
    using getOrderedHeaders_with_once [of desiredOrder ?hs]
    by (simp add: getOrderedHeaders_def distinct_singleton_set)
  have a: "getOrderedHeaders_accordion ?hs = [js ''Nombre'']"
    using getOrderedHeaders_accordion_with_once [of desiredOrder ?hs]
    by (simp add: getOrderedHeaders_accordion_def distinct_singleton_set)
  from g a show ?thesis by simp
qed

text \<open>
  In the accordion component the second disjunct of pass 2 never holds: every entry of
  \<open>desiredOrder\<close> begins with a capital letter A-Z, and no lower-cased string does. Its
  pass 2 therefore places a header only when the header contains the desired one.
\<close>

lemma toLowerUnit_not_capital: "\<not> (65 \<le> toLowerUnit c \<and> toLowerUnit c \<le> 90)"
  by (simp add: toLowerUnit_def)

lemma desiredOrder_capitalised:
  "\<forall>d\<in>set desiredOrder. \<exists>c cs. d = c # cs \<and> 65 \<le> c \<and> c \<le> 90"
  by (simp add: desiredOrder_def js_def)

lemma lowered_not_desired: "toLowerCase s \<notin> set desiredOrder"
proof
  assume "toLowerCase s \<in> set desiredOrder"
  with desiredOrder_capitalised obtain c cs
    where e: "toLowerCase s = c # cs" and c: "65 \<le> c \<and> c \<le> 90" by blast
  from e obtain x xs where "s = x # xs" and "c = toLowerUnit x"
    by (cases s) (auto simp: toLowerCase_def)
  with c toLowerUnit_not_capital [of x] show False by simp
qed

lemma partialMatch_accordion_one_way:
  "partialMatch_accordion desiredOrder h desiredHeader
     \<longleftrightarrow> str_includes (toLowerCase h) (toLowerCase desiredHeader)"
  by (simp add: partialMatch_accordion_def lowered_not_desired)

text \<open>
  Claim C5 at the headers Zeta, Moto. The header Moto is contained in the desired header
  "Moto en la que venis": the grid component places it in pass 2, before Zeta; the
  accordion component tests membership of the lower-cased header in \<open>desiredOrder\<close>
  instead of containment, places nothing in pass 2 and keeps the input order. The two
  components return different sequences.
\<close>

theorem getOrderedHeaders_variants_differ:
  "getOrderedHeaders [js ''Zeta'', js ''Moto''] = [js ''Moto'', js ''Zeta'']
   \<and> getOrderedHeaders_accordion [js ''Zeta'', js ''Moto''] = [js ''Zeta'', js ''Moto'']"
  by (simp add: orderer_eval)

section \<open>Properties of the Guest Identifier\<close>

lemma startsWith_iff: "startsWith s t \<longleftrightarrow> (\<exists>post. s = t @ post)"
  by (induction s t rule: startsWith.induct) auto

lemma str_includes_iff: "str_includes s t \<longleftrightarrow> (\<exists>pre post. s = pre @ t @ post)"
proof (induction s)
  case Nil
  show ?case by auto
next
  case (Cons x xs)
  show ?case
  proof
    assume "str_includes (x # xs) t"
    then consider "startsWith (x # xs) t" | "str_includes xs t" by auto
    then show "\<exists>pre post. x # xs = pre @ t @ post"
    proof cases
      case 1
      then obtain post where "x # xs = t @ post" unfolding startsWith_iff by blast
      then have "x # xs = [] @ t @ post" by simp
      then show ?thesis by blast
    next
      case 2
      with Cons.IH obtain pre post where "xs = pre @ t @ post" by blast
      then have "x # xs = (x # pre) @ t @ post" by simp
      then show ?thesis by blast
    qed
  next
    assume "\<exists>pre post. x # xs = pre @ t @ post"
    then obtain pre post where e: "x # xs = pre @ t @ post" by blast
    show "str_includes (x # xs) t"
    proof (cases pre)
      case Nil
      with e have "startsWith (x # xs) t" unfolding startsWith_iff by auto
      then show ?thesis by simp
    next
      case (Cons p ps)
      with e have "xs = ps @ t @ post" by simp
      with Cons.IH have "str_includes xs t" by blast
      then show ?thesis by simp
    qed
  qed
qed

lemma isIdHeader_nonempty: "isIdHeader h \<Longrightarrow> h \<noteq> []"
  by (auto simp: isIdHeader_def toLowerCase_def js_def)

lemma find_isIdHeader_nonempty: "List.find isIdHeader headers = Some h \<Longrightarrow> h \<noteq> []"
  by (metis find_Some_iff isIdHeader_nonempty)

lemma digits_nonempty: "digits n \<noteq> []"
  by (subst digits.simps) simp

lemma guest_n_nonempty: "guest_n n \<noteq> []"
  by (simp add: guest_n_def js_def)

lemma guestIdOf_nonempty: "guestIdOf headers r index \<noteq> []"
  by (auto simp: guestIdOf_def guest_n_nonempty split: option.splits)

lemma enumerate_map_index:
  "map (\<lambda>(i, x). f x i) (enumerate 0 xs) = map (\<lambda>i. f (xs ! i) i) [0..<length xs]"
  by (rule nth_equalityI) (simp_all add: nth_enumerate_eq)

lemma guestsToInsert_ids:
  "map new_guest_id (guestsToInsert data headers)
     = map (\<lambda>i. guestIdOf headers (data ! i) i) [0..<length data]"
proof -
  have "map new_guest_id (guestsToInsert data headers)
          = map (\<lambda>(i, r). guestIdOf headers r i) (enumerate 0 data)"
    by (simp add: guestsToInsert_def case_prod_unfold)
  then show ?thesis by (simp only: enumerate_map_index)
qed

lemma getProp_update_same: "getProp (AList.update k v al) k = v"
  by (simp add: getProp_def update_conv')

lemma getGuestId_augment:
  "guest_id g \<noteq> [] \<Longrightarrow> getGuestId (augment g) index = JStr (guest_id g)"
  by (simp add: getGuestId_def augment_def getProp_update_same)

lemmas id_eval = guestIdOf_def isIdHeader_def toLowerCase_def toLowerUnit_def js_def getProp_def
  guest_n_def numberToString_def digits.simps getGuestId_def possibleIdFields_def

lemma only_Nombre: "guestIdOf [js ''Nombre''] r 0 = js ''guest_1''"
  by (simp add: guestIdOf_def isIdHeader_def toLowerCase_def toLowerUnit_def js_def
      guest_n_def numberToString_def digits.simps)

text \<open>
  Claim C3, as the code has it. On the persistence path the identifier of the row at
  position \<open>index\<close> (counted from 0) of the parsed rows is: \<open>guest_\<close> followed by
  \<open>index + 1\<close> when no header contains "id", "codigo" (with or without accent) after
  lower-casing; the string of the cell under the first such header when that string is
  not empty; \<open>guest_\<close> followed by \<open>index + 1\<close> again when that cell is missing,
  null or the empty string. The identifiers sent to the store are these, row by row,
  and with the header Nombre alone the first row gets guest_1. On the display path a
  row that comes from the store shows the identifier persisted with it.
\<close>

theorem guest_identifier_rule:
  "(List.find isIdHeader headers = None \<longrightarrow> guestIdOf headers r index = guest_n (index + 1))
   \<and> (List.find isIdHeader headers = Some h \<and> toString (getProp r h) = Some s \<and> s \<noteq> []
        \<longrightarrow> guestIdOf headers r index = s)
   \<and> (List.find isIdHeader headers = Some h
        \<and> (toString (getProp r h) = None \<or> toString (getProp r h) = Some [])
        \<longrightarrow> guestIdOf headers r index = guest_n (index + 1))
   \<and> (isIdHeader h' \<longleftrightarrow>
        (\<exists>needle \<in> {js ''id'', js ''c'' @ [243] @ js ''digo'', js ''codigo''}.
           \<exists>pre post. toLowerCase h' = pre @ needle @ post))
   \<and> map new_guest_id (guestsToInsert data headers)
        = map (\<lambda>i. guestIdOf headers (data ! i) i) [0..<length data]
   \<and> guestIdOf [js ''Nombre''] r 0 = js ''guest_1''
   \<and> (guest_id g \<noteq> [] \<longrightarrow> getGuestId (augment g) index' = JStr (guest_id g))"
proof (intro conjI impI)
  assume "List.find isIdHeader headers = None"
  then show "guestIdOf headers r index = guest_n (index + 1)"
    by (simp add: guestIdOf_def)
next
  assume a: "List.find isIdHeader headers = Some h \<and> toString (getProp r h) = Some s \<and> s \<noteq> []"
  then have "h \<noteq> []" using find_isIdHeader_nonempty by blast
  with a show "guestIdOf headers r index = s"
    by (simp add: guestIdOf_def)
next
  assume a: "List.find isIdHeader headers = Some h
    \<and> (toString (getProp r h) = None \<or> toString (getProp r h) = Some [])"
  then show "guestIdOf headers r index = guest_n (index + 1)"
    by (auto simp: guestIdOf_def)
next
  show "isIdHeader h' \<longleftrightarrow>
        (\<exists>needle \<in> {js ''id'', js ''c'' @ [243] @ js ''digo'', js ''codigo''}.
           \<exists>pre post. toLowerCase h' = pre @ needle @ post)"
    unfolding isIdHeader_def str_includes_iff by blast
next
  show "map new_guest_id (guestsToInsert data headers)
        = map (\<lambda>i. guestIdOf headers (data ! i) i) [0..<length data]"
    by (rule guestsToInsert_ids)
next
  show "guestIdOf [js ''Nombre''] r 0 = js ''guest_1''" by (rule only_Nombre)
next
  assume "guest_id g \<noteq> []"
  then show "getGuestId (augment g) index' = JStr (guest_id g)" by (rule getGuestId_augment)
qed


text \<open>
  The theorem at the headers Codigo (with accent), Nombre and the row A1, Ana: the
  identifier is A1. At the headers ID, Nombre with an empty ID cell, and at the header
  Nombre alone, the first row gets guest_1. A stored row shows its persisted identifier.
\<close>

theorem guest_identifier_rule_witness:
  "List.find isIdHeader [js ''C'' @ [243] @ js ''digo'', js ''Nombre'']
      = Some (js ''C'' @ [243] @ js ''digo'')
   \<and> guestIdOf [js ''C'' @ [243] @ js ''digo'', js ''Nombre'']
        [(js ''C'' @ [243] @ js ''digo'', JStr (js ''A1'')), (js ''Nombre'', JStr (js ''Ana''))] 0
      = js ''A1''
   \<and> List.find isIdHeader [js ''ID'', js ''Nombre''] = Some (js ''ID'')
   \<and> guestIdOf [js ''ID'', js ''Nombre'']
        [(js ''ID'', JStr []), (js ''Nombre'', JStr (js ''Ana''))] 0
      = guest_n 1
   \<and> List.find isIdHeader [js ''Nombre''] = None
   \<and> guestIdOf [js ''Nombre''] [(js ''Nombre'', JStr (js ''Ana''))] 0 = guest_n 1
   \<and> getGuestId
        (augment \<lparr>id_uuid = js ''u1'', guest_id = js ''A1'',
                  guest_data = [(js ''Nombre'', JStr (js ''Ana''))], confirmed = False,
                  confirmed_at = None, created_at = 0, updated_at = 0\<rparr>) 7
      = JStr (js ''A1'')"
proof -
  let ?cod = "js ''C'' @ [243] @ js ''digo''"
  let ?r1 = "[(?cod, JStr (js ''A1'')), (js ''Nombre'', JStr (js ''Ana''))]"
  let ?r2 = "[(js ''ID'', JStr []), (js ''Nombre'', JStr (js ''Ana''))]"
  let ?r3 = "[(js ''Nombre'', JStr (js ''Ana''))]"
  let ?g = "\<lparr>id_uuid = js ''u1'', guest_id = js ''A1'', guest_data = ?r3, confirmed = False,
             confirmed_at = None, created_at = 0, updated_at = 0\<rparr>"
  have f1: "List.find isIdHeader [?cod, js ''Nombre''] = Some ?cod"
    by (simp add: isIdHeader_def toLowerCase_def toLowerUnit_def js_def)
  have c1: "toString (getProp ?r1 ?cod) = Some (js ''A1'') \<and> js ''A1'' \<noteq> []"
    by (simp add: getProp_def js_def)
  have f2: "List.find isIdHeader [js ''ID'', js ''Nombre''] = Some (js ''ID'')"
    by (simp add: isIdHeader_def toLowerCase_def toLowerUnit_def js_def)
  have c2: "toString (getProp ?r2 (js ''ID'')) = Some []"
    by (simp add: getProp_def js_def)
  have f3: "List.find isIdHeader [js ''Nombre''] = None"
    by (simp add: isIdHeader_def toLowerCase_def toLowerUnit_def js_def)
  have g: "guest_id ?g \<noteq> []" by (simp add: js_def)
  from f1 c1 guest_identifier_rule [of "[?cod, js ''Nombre'']" ?r1 0 ?cod "js ''A1''"]
  have a1: "guestIdOf [?cod, js ''Nombre''] ?r1 0 = js ''A1''" by blast
  from f2 c2 guest_identifier_rule [of "[js ''ID'', js ''Nombre'']" ?r2 0 "js ''ID''"]
  have a2: "guestIdOf [js ''ID'', js ''Nombre''] ?r2 0 = guest_n (0 + 1)" by blast
  from f3 guest_identifier_rule [of "[js ''Nombre'']" ?r3 0]
  have a3: "guestIdOf [js ''Nombre''] ?r3 0 = guest_n (0 + 1)" by blast
  from g guest_identifier_rule [where g = ?g and index' = 7]
  have a4: "getGuestId (augment ?g) 7 = JStr (guest_id ?g)" by blast
  have n: "guest_n (0 + 1) = guest_n 1" and i: "guest_id ?g = js ''A1''" by simp_all
  from f1 a1 f2 a2 f3 a3 a4 show ?thesis unfolding n i by blast
qed

text \<open>
  Claim C3 as it is worded fails in two places. On the persistence path a header that
  contains "id" exists but its cell is empty: the identifier is guest_1, not the cell's
  string. On the display path the first row of a local batch with the header Nombre
  alone gets guest_0: \<open>getGuestId\<close> looks for seven exact field names and numbers the
  rows from 0 by their position in the rows displayed.
\<close>

theorem guest_identifier_counterexample:
  "guestIdOf [js ''ID'', js ''Nombre'']
      [(js ''ID'', JStr []), (js ''Nombre'', JStr (js ''Ana''))] 0 = js ''guest_1''
   \<and> getGuestId [(js ''Nombre'', JStr (js ''Ana''))] 0 = JStr (js ''guest_0'')
   \<and> js ''guest_0'' \<noteq> js ''guest_1''"
  by (simp add: id_eval)

section \<open>Properties of delimited-text parsing\<close>

lemma isIntegerLiteral_has_digit: "isIntegerLiteral s \<Longrightarrow> list_ex isDigit s"
  by (cases s) (auto simp: isIntegerLiteral_def list_ex_iff list_all_iff neq_Nil_conv
      split: if_splits)

lemma boolean_literals_no_digit:
  "\<not> list_ex isDigit (js ''true'')" "\<not> list_ex isDigit (js ''TRUE'')"
  "\<not> list_ex isDigit (js ''false'')" "\<not> list_ex isDigit (js ''FALSE'')"
  by (simp_all add: js_def isDigit_def)

lemma integer_literal_not_boolean:
  assumes "isIntegerLiteral s"
  shows "s \<noteq> js ''true'' \<and> s \<noteq> js ''TRUE'' \<and> s \<noteq> js ''false'' \<and> s \<noteq> js ''FALSE''"
  using isIntegerLiteral_has_digit [OF assms] boolean_literals_no_digit by blast

text \<open>
  Claim C2, as the code has it. \<open>processCSVFile\<close> parses with \<open>dynamicTyping\<close> set, so
  cells are typed: the four boolean literals become booleans, and a decimal integer
  literal below 2^53 in magnitude becomes that number. A non-empty cell without a digit
  that is not a boolean literal is kept as the string the file gives. With the option
  off every cell would be kept as its string.
\<close>

theorem csv_cells_are_typed:
  "dynamicTyping processCSVFile_config
   \<and> (value = js ''true'' \<or> value = js ''TRUE''
        \<longrightarrow> parsedCell processCSVFile_config value = Some (JBool True))
   \<and> (value = js ''false'' \<or> value = js ''FALSE''
        \<longrightarrow> parsedCell processCSVFile_config value = Some (JBool False))
   \<and> (isIntegerLiteral value \<and> \<bar>integerValue value\<bar> < 2 ^ 53
        \<longrightarrow> parsedCell processCSVFile_config value = Some (JNum (integerValue value)))
   \<and> (value \<noteq> [] \<and> \<not> list_ex isDigit value
        \<and> value \<notin> {js ''true'', js ''TRUE'', js ''false'', js ''FALSE''}
        \<longrightarrow> parsedCell processCSVFile_config value = Some (JStr value))
   \<and> parsedCell (processCSVFile_config\<lparr>dynamicTyping := False\<rparr>) value = Some (JStr value)"
proof (intro conjI impI)
  show "dynamicTyping processCSVFile_config" by (simp add: processCSVFile_config_def)
next
  assume "value = js ''true'' \<or> value = js ''TRUE''"
  then show "parsedCell processCSVFile_config value = Some (JBool True)"
    by (auto simp: parsedCell_def parseDynamic_def processCSVFile_config_def)
next
  assume "value = js ''false'' \<or> value = js ''FALSE''"
  then show "parsedCell processCSVFile_config value = Some (JBool False)"
    by (auto simp: parsedCell_def parseDynamic_def processCSVFile_config_def js_def)
next
  assume a: "isIntegerLiteral value \<and> \<bar>integerValue value\<bar> < 2 ^ 53"
  with integer_literal_not_boolean [of "value"]
  show "parsedCell processCSVFile_config value = Some (JNum (integerValue value))"
    by (simp add: parsedCell_def parseDynamic_def processCSVFile_config_def)
next
  assume a: "value \<noteq> [] \<and> \<not> list_ex isDigit value
    \<and> value \<notin> {js ''true'', js ''TRUE'', js ''false'', js ''FALSE''}"
  then have "\<not> isIntegerLiteral value" using isIntegerLiteral_has_digit by blast
  with a show "parsedCell processCSVFile_config value = Some (JStr value)"
    by (simp add: parsedCell_def parseDynamic_def processCSVFile_config_def)
next
  show "parsedCell (processCSVFile_config\<lparr>dynamicTyping := False\<rparr>) value = Some (JStr value)"
    by (simp add: parsedCell_def)
qed

text \<open>
  The theorem at the cells TRUE, 42 and Ana: a boolean, a number, and the string kept.
\<close>

theorem csv_cells_are_typed_witness:
  "parsedCell processCSVFile_config (js ''TRUE'') = Some (JBool True)
   \<and> isIntegerLiteral (js ''42'') \<and> \<bar>integerValue (js ''42'')\<bar> < 2 ^ 53
   \<and> parsedCell processCSVFile_config (js ''42'') = Some (JNum (integerValue (js ''42'')))
   \<and> integerValue (js ''42'') = 42
   \<and> js ''Ana'' \<noteq> [] \<and> \<not> list_ex isDigit (js ''Ana'')
   \<and> js ''Ana'' \<notin> {js ''true'', js ''TRUE'', js ''false'', js ''FALSE''}
   \<and> parsedCell processCSVFile_config (js ''Ana'') = Some (JStr (js ''Ana''))"
proof -
  have i: "isIntegerLiteral (js ''42'') \<and> \<bar>integerValue (js ''42'')\<bar> < 2 ^ 53"
    and v: "integerValue (js ''42'') = 42"
    by (simp_all add: isIntegerLiteral_def integerValue_def digitsValue_def isDigit_def js_def)
  have t: "js ''Ana'' \<noteq> [] \<and> \<not> list_ex isDigit (js ''Ana'')
      \<and> js ''Ana'' \<notin> {js ''true'', js ''TRUE'', js ''false'', js ''FALSE''}"
    by (simp add: isDigit_def js_def)
  from csv_cells_are_typed [of "js ''TRUE''"]
  have b: "parsedCell processCSVFile_config (js ''TRUE'') = Some (JBool True)" by blast
  from i csv_cells_are_typed [of "js ''42''"]
  have n: "parsedCell processCSVFile_config (js ''42'') = Some (JNum (integerValue (js ''42'')))"
    by blast
  from t csv_cells_are_typed [of "js ''Ana''"]
  have s: "parsedCell processCSVFile_config (js ''Ana'') = Some (JStr (js ''Ana''))" by blast
  from b i n v t s show ?thesis by blast
qed

text \<open>
  Claim C2 as it is worded says that no value is typed. The cell 007 (a document number
  with leading zeros) is parsed as the number 7, whose string is 7: what is stored is
  not what the file gives.
\<close>

theorem csv_cell_typed_counterexample:
  "parsedCell processCSVFile_config (js ''007'') = Some (JNum 7)
   \<and> toString (JNum 7) = Some (js ''7'')
   \<and> JNum 7 \<noteq> JStr (js ''007'')
   \<and> js ''7'' \<noteq> js ''007''"
  by (simp add: parsedCell_def parseDynamic_def processCSVFile_config_def isIntegerLiteral_def
      integerValue_def digitsValue_def isDigit_def js_def numberToString_def digits.simps)

section \<open>Properties of the Persistence Gateway\<close>

lemma guestsToInsert_length: "length (guestsToInsert data headers) = length data"
  by (simp add: guestsToInsert_def)

lemma guestsToInsert_nth:
  "k < length data \<Longrightarrow>
   guestsToInsert data headers ! k
     = \<lparr>new_guest_id = guestIdOf headers (data ! k) k, new_guest_data = data ! k,
        new_confirmed = False\<rparr>"
  by (simp add: guestsToInsert_def nth_enumerate_eq)

lemma inserted_rows_length: "length (inserted_rows now gen rows) = length rows"
  by (simp add: inserted_rows_def)

lemma inserted_rows_nth:
  "k < length rows \<Longrightarrow>
   inserted_rows now gen rows ! k
     = \<lparr>id_uuid = gen k, guest_id = new_guest_id (rows ! k),
        guest_data = new_guest_data (rows ! k), confirmed = new_confirmed (rows ! k),
        confirmed_at = None, created_at = now, updated_at = now\<rparr>"
  by (simp add: inserted_rows_def nth_enumerate_eq)

text \<open>The rows that an accepted insert of \<open>guestsToInsert data headers\<close> adds.\<close>

lemma new_rows_guest_data:
  "map guest_data (inserted_rows now gen (guestsToInsert data headers)) = data"
  by (rule nth_equalityI)
    (simp_all add: inserted_rows_length guestsToInsert_length inserted_rows_nth guestsToInsert_nth)

lemma new_rows_guest_id:
  "map guest_id (inserted_rows now gen (guestsToInsert data headers))
     = map (\<lambda>i. guestIdOf headers (data ! i) i) [0..<length data]"
  by (rule nth_equalityI)
    (simp_all add: inserted_rows_length guestsToInsert_length inserted_rows_nth guestsToInsert_nth)

lemma new_rows_id_uuid:
  "map id_uuid (inserted_rows now gen (guestsToInsert data headers)) = map gen [0..<length data]"
  by (rule nth_equalityI)
    (simp_all add: inserted_rows_length guestsToInsert_length inserted_rows_nth guestsToInsert_nth)

lemma new_rows_unconfirmed:
  "g \<in> set (inserted_rows now gen (guestsToInsert data headers)) \<Longrightarrow> confirmed g = False"
  by (auto simp: in_set_conv_nth inserted_rows_length guestsToInsert_length inserted_rows_nth
      guestsToInsert_nth)

lemma db_delete_all:
  "\<forall>g\<in>set t. id_uuid g \<noteq> x \<Longrightarrow> db_delete_neq_id None x t = (None, [])"
  by (simp add: db_delete_neq_id_def filter_empty_conv)

lemma save_accepted:
  assumes "delete_fault env = None" and "\<forall>g\<in>set t. id_uuid g \<noteq> zero_uuid"
    and "insert_fault env = None"
    and "distinct (map (\<lambda>i. guestIdOf headers (data ! i) i) [0..<length data])"
    and "distinct (map (gen_uuid env) [0..<length data])"
  shows "saveGuestsToSupabase env data headers t
           = (inserted_rows (insert_now env) (gen_uuid env) (guestsToInsert data headers),
              \<lparr>title = js ''Datos guardados'',
               description =
                 numberToString (int (length data))
                   @ js '' invitados guardados en la base de datos.'',
               variant = DefaultVariant\<rparr>)"
proof -
  have d: "snd (db_delete_neq_id (delete_fault env) zero_uuid t) = []"
    using assms(1,2) by (simp add: db_delete_all)
  show ?thesis
    unfolding saveGuestsToSupabase_def d Let_def using assms(3-5)
    by (simp add: db_insert_def Let_def new_rows_guest_id new_rows_id_uuid guestsToInsert_length)
qed

lemma save_rejected:
  assumes "delete_fault env = None" and "\<forall>g\<in>set t. id_uuid g \<noteq> zero_uuid"
    and "\<not> (insert_fault env = None
          \<and> distinct (map (\<lambda>i. guestIdOf headers (data ! i) i) [0..<length data])
          \<and> distinct (map (gen_uuid env) [0..<length data]))"
  shows "fst (saveGuestsToSupabase env data headers t) = []
         \<and> variant (snd (saveGuestsToSupabase env data headers t)) = Destructive"
proof -
  have d: "snd (db_delete_neq_id (delete_fault env) zero_uuid t) = []"
    using assms(1,2) by (simp add: db_delete_all)
  show ?thesis
    unfolding saveGuestsToSupabase_def d Let_def using assms(3)
    by (auto simp: db_insert_def Let_def new_rows_guest_id new_rows_id_uuid split: option.splits)
qed

text \<open>
  Claim C4, as the code has it. Let the delete succeed on a table that holds no row
  with the all-zero \<open>id\<close> (the one key the delete spares). The insert is accepted exactly
  when the request does not fail, the identifiers derived for the rows are pairwise
  distinct (the unique index on \<open>guest_id\<close>) and the generated keys are distinct. When
  it is accepted, the table afterwards holds one record per row, in order, each with
  \<open>confirmed = false\<close> and \<open>guest_data\<close> equal to its row, and \<open>guest_id\<close> as derived.
  When it is rejected, the table is left empty.
\<close>

theorem replaceAll_persists_every_row:
  assumes "delete_fault env = None" and "\<forall>g\<in>set t. id_uuid g \<noteq> zero_uuid"
  shows "(variant (snd (saveGuestsToSupabase env data headers t)) = DefaultVariant
          \<longleftrightarrow> insert_fault env = None
              \<and> distinct (map (\<lambda>i. guestIdOf headers (data ! i) i) [0..<length data])
              \<and> distinct (map (gen_uuid env) [0..<length data]))
     \<and> (variant (snd (saveGuestsToSupabase env data headers t)) = DefaultVariant
          \<longrightarrow> length (fst (saveGuestsToSupabase env data headers t)) = length data
              \<and> map guest_data (fst (saveGuestsToSupabase env data headers t)) = data
              \<and> (\<forall>g\<in>set (fst (saveGuestsToSupabase env data headers t)). confirmed g = False)
              \<and> map guest_id (fst (saveGuestsToSupabase env data headers t))
                  = map (\<lambda>i. guestIdOf headers (data ! i) i) [0..<length data])
     \<and> (variant (snd (saveGuestsToSupabase env data headers t)) \<noteq> DefaultVariant
          \<longrightarrow> fst (saveGuestsToSupabase env data headers t) = [])"
proof (cases "insert_fault env = None
    \<and> distinct (map (\<lambda>i. guestIdOf headers (data ! i) i) [0..<length data])
    \<and> distinct (map (gen_uuid env) [0..<length data])")
  case True
  then have "saveGuestsToSupabase env data headers t
           = (inserted_rows (insert_now env) (gen_uuid env) (guestsToInsert data headers),
              \<lparr>title = js ''Datos guardados'',
               description =
                 numberToString (int (length data))
                   @ js '' invitados guardados en la base de datos.'',
               variant = DefaultVariant\<rparr>)"
    using save_accepted [OF assms] by blast
  with True show ?thesis
    by (simp add: new_rows_guest_data new_rows_guest_id new_rows_unconfirmed
        inserted_rows_length guestsToInsert_length)
next
  case False
  with save_rejected [OF assms] show ?thesis by auto
qed


lemmas save_eval = saveGuestsToSupabase_def db_delete_neq_id_def db_insert_def inserted_rows_def
  guestsToInsert_def guestIdOf_def isIdHeader_def toLowerCase_def toLowerUnit_def js_def
  getProp_def guest_n_def numberToString_def digits.simps zero_uuid_def Let_def

text \<open>
  The theorem at the header Nombre and the rows Ana, Luis, on a table that held one
  record: the insert is accepted and the table afterwards holds the two rows.
\<close>

theorem replaceAll_persists_every_row_witness:
  "delete_fault \<lparr>delete_fault = None, insert_fault = None, insert_now = 5,
                  gen_uuid = (\<lambda>k. js ''u'' @ numberToString (int k))\<rparr> = None
   \<and> id_uuid \<lparr>id_uuid = js ''old'', guest_id = js ''X9'',
                guest_data = [(js ''Nombre'', JStr (js ''Eva''))], confirmed = True,
                confirmed_at = Some 1, created_at = 1, updated_at = 1\<rparr> \<noteq> zero_uuid
   \<and> variant (snd (saveGuestsToSupabase
         \<lparr>delete_fault = None, insert_fault = None, insert_now = 5,
          gen_uuid = (\<lambda>k. js ''u'' @ numberToString (int k))\<rparr>
         [[(js ''Nombre'', JStr (js ''Ana''))], [(js ''Nombre'', JStr (js ''Luis''))]]
         [js ''Nombre'']
         [\<lparr>id_uuid = js ''old'', guest_id = js ''X9'',
           guest_data = [(js ''Nombre'', JStr (js ''Eva''))], confirmed = True,
           confirmed_at = Some 1, created_at = 1, updated_at = 1\<rparr>])) = DefaultVariant
   \<and> map guest_data (fst (saveGuestsToSupabase
         \<lparr>delete_fault = None, insert_fault = None, insert_now = 5,
          gen_uuid = (\<lambda>k. js ''u'' @ numberToString (int k))\<rparr>
         [[(js ''Nombre'', JStr (js ''Ana''))], [(js ''Nombre'', JStr (js ''Luis''))]]
         [js ''Nombre'']
         [\<lparr>id_uuid = js ''old'', guest_id = js ''X9'',
           guest_data = [(js ''Nombre'', JStr (js ''Eva''))], confirmed = True,
           confirmed_at = Some 1, created_at = 1, updated_at = 1\<rparr>]))
       = [[(js ''Nombre'', JStr (js ''Ana''))], [(js ''Nombre'', JStr (js ''Luis''))]]"
proof -
  let ?env = "\<lparr>delete_fault = None, insert_fault = None, insert_now = 5,
               gen_uuid = (\<lambda>k. js ''u'' @ numberToString (int k))\<rparr>"
  let ?t = "[\<lparr>id_uuid = js ''old'', guest_id = js ''X9'',
              guest_data = [(js ''Nombre'', JStr (js ''Eva''))], confirmed = True,
              confirmed_at = Some (1::nat), created_at = 1, updated_at = 1\<rparr>]"
  let ?data = "[[(js ''Nombre'', JStr (js ''Ana''))], [(js ''Nombre'', JStr (js ''Luis''))]]"
  let ?headers = "[js ''Nombre'']"
  have h1: "delete_fault ?env = None" by simp
  have h2: "\<forall>g\<in>set ?t. id_uuid g \<noteq> zero_uuid" by (simp add: zero_uuid_def js_def)
  have two: "[0..<length ?data] = [0, 1]" by (simp add: upt_rec)
  have acc: "insert_fault ?env = None
      \<and> distinct (map (\<lambda>i. guestIdOf ?headers (?data ! i) i) [0..<length ?data])
      \<and> distinct (map (gen_uuid ?env) [0..<length ?data])"
    unfolding two
    by (simp add: guestIdOf_def isIdHeader_def toLowerCase_def toLowerUnit_def js_def
        guest_n_def numberToString_def digits.simps)
  note inst = replaceAll_persists_every_row [OF h1 h2, of ?data ?headers]
  from inst acc
  have ok: "variant (snd (saveGuestsToSupabase ?env ?data ?headers ?t)) = DefaultVariant"
    by blast
  with inst have "map guest_data (fst (saveGuestsToSupabase ?env ?data ?headers ?t)) = ?data"
    by blast
  moreover from h2 have "id_uuid (hd ?t) \<noteq> zero_uuid" by simp
  ultimately show ?thesis using h1 ok by simp
qed

text \<open>
  Claim C4 as it is worded fails on an accepted upload whose rows share an identifier.
  The header Apellido contains "id", so it is the identifier column; two guests named
  Perez get the same \<open>guest_id\<close>, the unique index rejects the insert, and the table,
  already emptied by the delete, holds no record for the two rows.
\<close>

theorem replaceAll_shared_identifier_counterexample:
  "acceptedUpload
      [[(js ''Apellido'', JStr (js ''Perez'')), (js ''Nombre'', JStr (js ''Ana''))],
       [(js ''Apellido'', JStr (js ''Perez'')), (js ''Nombre'', JStr (js ''Luis''))]]
      [js ''Apellido'', js ''Nombre'']
   \<and> map new_guest_id (guestsToInsert
        [[(js ''Apellido'', JStr (js ''Perez'')), (js ''Nombre'', JStr (js ''Ana''))],
         [(js ''Apellido'', JStr (js ''Perez'')), (js ''Nombre'', JStr (js ''Luis''))]]
        [js ''Apellido'', js ''Nombre'']) = [js ''Perez'', js ''Perez'']
   \<and> saveGuestsToSupabase
        \<lparr>delete_fault = None, insert_fault = None, insert_now = 5,
         gen_uuid = (\<lambda>k. js ''u'' @ numberToString (int k))\<rparr>
        [[(js ''Apellido'', JStr (js ''Perez'')), (js ''Nombre'', JStr (js ''Ana''))],
         [(js ''Apellido'', JStr (js ''Perez'')), (js ''Nombre'', JStr (js ''Luis''))]]
        [js ''Apellido'', js ''Nombre''] []
      = ([], \<lparr>title = js ''Error al guardar'',
              description =
                js ''duplicate key value violates unique constraint ''
                  @ [34] @ js ''idx_guests_guest_id'' @ [34],
              variant = Destructive\<rparr>)"
  by (simp add: save_eval acceptedUpload_def validData_def isValidRow_def unique_violation_def)

section \<open>Failure of the delete\<close>

text \<open>
  Claim C6 at an upload during which the delete fails (the request does not reach the
  service) and the insert succeeds. The answer of the delete is not inspected: the old
  record stays, the new one is added, and the toast reports success. No error is
  surfaced for the failed delete.
\<close>

theorem saveGuestsToSupabase_delete_failure_swallowed:
  "saveGuestsToSupabase
      \<lparr>delete_fault = Some (DbError (js ''Failed to fetch'')), insert_fault = None,
       insert_now = 5, gen_uuid = (\<lambda>k. js ''u'' @ numberToString (int k))\<rparr>
      [[(js ''Nombre'', JStr (js ''Ana''))]] [js ''Nombre'']
      [\<lparr>id_uuid = js ''old'', guest_id = js ''X9'',
        guest_data = [(js ''Nombre'', JStr (js ''Eva''))], confirmed = True,
        confirmed_at = Some 1, created_at = 1, updated_at = 1\<rparr>]
    = ([\<lparr>id_uuid = js ''old'', guest_id = js ''X9'',
         guest_data = [(js ''Nombre'', JStr (js ''Eva''))], confirmed = True,
         confirmed_at = Some 1, created_at = 1, updated_at = 1\<rparr>,
        \<lparr>id_uuid = js ''u0'', guest_id = js ''guest_1'',
         guest_data = [(js ''Nombre'', JStr (js ''Ana''))], confirmed = False,
         confirmed_at = None, created_at = 5, updated_at = 5\<rparr>],
       \<lparr>title = js ''Datos guardados'',
        description = js ''1 invitados guardados en la base de datos.'',
        variant = DefaultVariant\<rparr>)"
  by (simp add: save_eval)

section \<open>Properties of the confirmation toggle\<close>

lemma toggle_ok:
  assumes "update_fault env = None"
  shows "handleConfirmGuest env guestId (t, cg)
     = (map (\<lambda>g. if guest_id g = guestId
                  then g\<lparr>confirmed := guestId \<notin> cg,
                         confirmed_at := (if guestId \<notin> cg then Some (client_now env) else None),
                         updated_at := update_now env\<rparr>
                  else g) t,
        (if guestId \<in> cg then cg - {guestId} else insert guestId cg),
        \<lparr>title = (if guestId \<in> cg then js ''Confirmaci'' @ [243] @ js ''n cancelada''
                   else js ''Invitado confirmado''),
         description = js ''El invitado '' @ guestId @ js '' ha sido ''
                   @ (if guestId \<in> cg then js ''des'' else []) @ js ''confirmado.'',
         variant = DefaultVariant\<rparr>)"
  using assms by (simp add: handleConfirmGuest_def db_update_confirmed_def Let_def)

lemma toggle_failed:
  assumes "update_fault env = Some e"
  shows "handleConfirmGuest env guestId (t, cg)
     = (t, cg, \<lparr>title = js ''Error al actualizar'',
               description = js ''No se pudo actualizar el estado del invitado.'',
               variant = Destructive\<rparr>)"
  using assms by (simp add: handleConfirmGuest_def db_update_confirmed_def Let_def)


lemma write_confirmed_same_id:
  "guest_id (if guest_id g = i then g\<lparr>confirmed := c, confirmed_at := a, updated_at := n\<rparr> else g)
     = guest_id g"
  by simp

lemma write_confirmed_value:
  "confirmed (if guest_id g = i then g\<lparr>confirmed := c, confirmed_at := a, updated_at := n\<rparr> else g)
     = (if guest_id g = i then c else confirmed g)"
  by simp

lemma write_agreeing:
  assumes "\<forall>g\<in>set t. guest_id g = i \<longrightarrow> (confirmed g \<longleftrightarrow> b)"
  shows "map (\<lambda>g. if guest_id g = i
                  then g\<lparr>confirmed := \<not> b, confirmed_at := a (\<not> b), updated_at := n\<rparr>
                  else g) t
       = map (\<lambda>g. if guest_id g = i
                    then g\<lparr>confirmed := \<not> confirmed g, confirmed_at := a (\<not> confirmed g),
                           updated_at := n\<rparr>
                    else g) t"
proof (rule map_cong [OF refl])
  fix g
  assume "g \<in> set t"
  with assms have "guest_id g = i \<longrightarrow> (confirmed g \<longleftrightarrow> b)" by blast
  then show "(if guest_id g = i
              then g\<lparr>confirmed := \<not> b, confirmed_at := a (\<not> b), updated_at := n\<rparr> else g)
           = (if guest_id g = i
              then g\<lparr>confirmed := \<not> confirmed g, confirmed_at := a (\<not> confirmed g),
                     updated_at := n\<rparr>
              else g)"
    by simp
qed

lemma write_keeps_agreement:
  assumes "\<forall>g\<in>set t. guest_id g = i \<longrightarrow> (confirmed g \<longleftrightarrow> b)"
  shows "\<forall>g\<in>set (map (\<lambda>g. if guest_id g = i
                            then g\<lparr>confirmed := c, confirmed_at := a, updated_at := n\<rparr>
                            else g) t).
           guest_id g = i \<longrightarrow> (confirmed g \<longleftrightarrow> c)"
proof
  fix g
  assume "g \<in> set (map (\<lambda>g. if guest_id g = i
                            then g\<lparr>confirmed := c, confirmed_at := a, updated_at := n\<rparr>
                            else g) t)"
  then obtain g' where "g' \<in> set t"
    and g: "g = (if guest_id g' = i
                 then g'\<lparr>confirmed := c, confirmed_at := a, updated_at := n\<rparr> else g')"
    unfolding set_map by (rule imageE)
  show "guest_id g = i \<longrightarrow> (confirmed g \<longleftrightarrow> c)"
    unfolding g write_confirmed_same_id write_confirmed_value by simp
qed

lemma write_twice_confirmed:
  assumes "\<forall>g\<in>set t. guest_id g = i \<longrightarrow> (confirmed g \<longleftrightarrow> b)"
  shows "map confirmed
           (map (\<lambda>g. if guest_id g = i
                      then g\<lparr>confirmed := b, confirmed_at := a2, updated_at := n2\<rparr> else g)
              (map (\<lambda>g. if guest_id g = i
                         then g\<lparr>confirmed := c, confirmed_at := a1, updated_at := n1\<rparr> else g)
                 t))
         = map confirmed t"
proof -
  have "map (\<lambda>g. confirmed
                (if guest_id (if guest_id g = i
                              then g\<lparr>confirmed := c, confirmed_at := a1, updated_at := n1\<rparr>
                              else g) = i
                 then (if guest_id g = i
                       then g\<lparr>confirmed := c, confirmed_at := a1, updated_at := n1\<rparr>
                       else g)\<lparr>confirmed := b, confirmed_at := a2, updated_at := n2\<rparr>
                 else (if guest_id g = i
                       then g\<lparr>confirmed := c, confirmed_at := a1, updated_at := n1\<rparr>
                       else g))) t
        = map confirmed t"
  proof (rule map_cong [OF refl])
    fix g
    assume "g \<in> set t"
    with assms have "guest_id g = i \<longrightarrow> (confirmed g \<longleftrightarrow> b)" by blast
    then show "confirmed
                (if guest_id (if guest_id g = i
                              then g\<lparr>confirmed := c, confirmed_at := a1, updated_at := n1\<rparr>
                              else g) = i
                 then (if guest_id g = i
                       then g\<lparr>confirmed := c, confirmed_at := a1, updated_at := n1\<rparr>
                       else g)\<lparr>confirmed := b, confirmed_at := a2, updated_at := n2\<rparr>
                 else (if guest_id g = i
                       then g\<lparr>confirmed := c, confirmed_at := a1, updated_at := n1\<rparr>
                       else g))
             = confirmed g"
      by simp
  qed
  then show ?thesis by (simp add: comp_def)
qed

text \<open>
  After a load \<open>confirmedGuests\<close> is \<open>confirmedOf\<close> of the rows read, and the unique
  index keeps the identifiers of the table distinct: the set then agrees with every
  record, which is the third assumption of the theorem below.
\<close>

lemma confirmedOf_agrees:
  assumes "distinct (map guest_id t)" and "g \<in> set t"
  shows "confirmed g \<longleftrightarrow> guest_id g \<in> confirmedOf t"
proof
  assume "confirmed g"
  with assms(2) show "guest_id g \<in> confirmedOf t" by (auto simp: confirmedOf_def)
next
  assume "guest_id g \<in> confirmedOf t"
  then obtain g' where g': "g' \<in> set t" "confirmed g'" "guest_id g' = guest_id g"
    by (auto simp: confirmedOf_def)
  from assms(1) have "inj_on guest_id (set t)" by (simp add: distinct_map)
  with g'(1,3) assms(2) have "g' = g" by (auto dest: inj_onD)
  with g'(2) show "confirmed g" by simp
qed

lemmas toggle_eval = handleConfirmGuest_def db_update_confirmed_def Let_def js_def

text \<open>
  Claim C7, as the code has it. Let the update request succeed, and let the component's
  \<open>confirmedGuests\<close> agree with the table on \<open>guestId\<close>: every record with that
  identifier is confirmed exactly when the identifier is in the set (the state after a
  load). Then the toggle flips \<open>confirmed\<close> of every such record, sets \<open>confirmed_at\<close>
  to the client's time when the record becomes confirmed and to null when it stops
  being confirmed, leaves the other records alone, flips the identifier in the set, and
  the agreement holds again. A second toggle in that state returns every record and
  the set to the original confirmed value.
\<close>

theorem toggleConfirmed_flips_in_sync:
  assumes "update_fault env = None" and "update_fault env' = None"
    and "\<forall>g\<in>set t. guest_id g = guestId \<longrightarrow> (confirmed g \<longleftrightarrow> guestId \<in> cg)"
  shows "(let s1 = handleConfirmGuest env guestId (t, cg);
              s2 = handleConfirmGuest env' guestId (fst s1, fst (snd s1))
          in fst s1 = map (\<lambda>g. if guest_id g = guestId
                                then g\<lparr>confirmed := \<not> confirmed g,
                                       confirmed_at := (if \<not> confirmed g
                                                        then Some (client_now env) else None),
                                       updated_at := update_now env\<rparr>
                                else g) t
             \<and> fst (snd s1) = (if guestId \<in> cg then cg - {guestId} else insert guestId cg)
             \<and> variant (snd (snd s1)) = DefaultVariant
             \<and> (\<forall>g\<in>set (fst s1). guest_id g = guestId
                   \<longrightarrow> (confirmed g \<longleftrightarrow> guestId \<in> fst (snd s1)))
             \<and> map confirmed (fst s2) = map confirmed t
             \<and> fst (snd s2) = cg)"
proof -
  let ?b = "guestId \<in> cg"
  let ?at = "\<lambda>c. if c then Some (client_now env) else None"
  let ?cg1 = "if guestId \<in> cg then cg - {guestId} else insert guestId cg"
  let ?t1 = "map (\<lambda>g. if guest_id g = guestId
                       then g\<lparr>confirmed := \<not> ?b, confirmed_at := ?at (\<not> ?b),
                              updated_at := update_now env\<rparr>
                       else g) t"
  have s1: "handleConfirmGuest env guestId (t, cg)
      = (?t1, ?cg1,
         \<lparr>title = (if guestId \<in> cg then js ''Confirmaci'' @ [243] @ js ''n cancelada''
                    else js ''Invitado confirmado''),
          description = js ''El invitado '' @ guestId @ js '' ha sido ''
                    @ (if guestId \<in> cg then js ''des'' else []) @ js ''confirmado.'',
          variant = DefaultVariant\<rparr>)"
    unfolding toggle_ok [OF assms(1)] by simp
  have in1: "guestId \<in> ?cg1 \<longleftrightarrow> \<not> ?b" by simp
  have t1: "?t1 = map (\<lambda>g. if guest_id g = guestId
                            then g\<lparr>confirmed := \<not> confirmed g,
                                   confirmed_at := ?at (\<not> confirmed g),
                                   updated_at := update_now env\<rparr>
                            else g) t"
    by (rule write_agreeing [OF assms(3), where a = ?at])
  have sync1: "\<forall>g\<in>set ?t1. guest_id g = guestId \<longrightarrow> (confirmed g \<longleftrightarrow> guestId \<in> ?cg1)"
    unfolding in1 by (rule write_keeps_agreement [OF assms(3)])
  have s2: "handleConfirmGuest env' guestId (?t1, ?cg1)
      = (map (\<lambda>g. if guest_id g = guestId
                   then g\<lparr>confirmed := ?b,
                          confirmed_at := (if ?b then Some (client_now env') else None),
                          updated_at := update_now env'\<rparr>
                   else g) ?t1,
         (if guestId \<in> ?cg1 then ?cg1 - {guestId} else insert guestId ?cg1),
         \<lparr>title = (if guestId \<in> ?cg1 then js ''Confirmaci'' @ [243] @ js ''n cancelada''
                    else js ''Invitado confirmado''),
          description = js ''El invitado '' @ guestId @ js '' ha sido ''
                    @ (if guestId \<in> ?cg1 then js ''des'' else []) @ js ''confirmado.'',
          variant = DefaultVariant\<rparr>)"
  proof (cases "guestId \<in> cg")
    case True
    then show ?thesis unfolding toggle_ok [OF assms(2)] by simp
  next
    case False
    then show ?thesis unfolding toggle_ok [OF assms(2)] by simp
  qed
  have t2: "map confirmed (fst (handleConfirmGuest env' guestId (?t1, ?cg1))) = map confirmed t"
    unfolding s2 fst_conv by (rule write_twice_confirmed [OF assms(3)])
  have c2: "fst (snd (handleConfirmGuest env' guestId (?t1, ?cg1))) = cg"
  proof (cases "guestId \<in> cg")
    case True
    then show ?thesis unfolding s2 fst_conv snd_conv by auto
  next
    case False
    then show ?thesis unfolding s2 fst_conv snd_conv by auto
  qed
  have v1: "variant (snd (snd (handleConfirmGuest env guestId (t, cg)))) = DefaultVariant"
    unfolding s1 by simp
  have f1: "fst (handleConfirmGuest env guestId (t, cg)) = ?t1"
    and g1: "fst (snd (handleConfirmGuest env guestId (t, cg))) = ?cg1"
    unfolding s1 by simp_all
  show ?thesis
    unfolding Let_def f1 g1
  proof (intro conjI)
    show "?t1 = map (\<lambda>g. if guest_id g = guestId
                          then g\<lparr>confirmed := \<not> confirmed g,
                                 confirmed_at := (if \<not> confirmed g
                                                  then Some (client_now env) else None),
                                 updated_at := update_now env\<rparr>
                          else g) t"
      by (rule t1)
    show "?cg1 = ?cg1" by (rule refl)
    show "variant (snd (snd (handleConfirmGuest env guestId (t, cg)))) = DefaultVariant"
      by (rule v1)
    show "\<forall>g\<in>set ?t1. guest_id g = guestId \<longrightarrow> (confirmed g \<longleftrightarrow> guestId \<in> ?cg1)"
      by (rule sync1)
    show "map confirmed (fst (handleConfirmGuest env' guestId (?t1, ?cg1))) = map confirmed t"
      by (rule t2)
    show "fst (snd (handleConfirmGuest env' guestId (?t1, ?cg1))) = cg"
      by (rule c2)
  qed
qed


text \<open>
  The theorem on a table with the unconfirmed record A1 and an empty \<open>confirmedGuests\<close>:
  the first toggle confirms the record, the second returns it to unconfirmed.
\<close>

theorem toggleConfirmed_flips_in_sync_witness:
  "update_fault \<lparr>update_fault = None, client_now = 10, update_now = 11\<rparr> = None
   \<and> confirmed \<lparr>id_uuid = js ''u1'', guest_id = js ''A1'',
                  guest_data = [(js ''Nombre'', JStr (js ''Ana''))], confirmed = False,
                  confirmed_at = None, created_at = 1, updated_at = 1\<rparr>
       = (js ''A1'' \<in> ({}::jsstring set))
   \<and> fst (handleConfirmGuest \<lparr>update_fault = None, client_now = 10, update_now = 11\<rparr>
          (js ''A1'')
          ([\<lparr>id_uuid = js ''u1'', guest_id = js ''A1'',
             guest_data = [(js ''Nombre'', JStr (js ''Ana''))], confirmed = False,
             confirmed_at = None, created_at = 1, updated_at = 1\<rparr>], {}))
       = [\<lparr>id_uuid = js ''u1'', guest_id = js ''A1'',
           guest_data = [(js ''Nombre'', JStr (js ''Ana''))], confirmed = True,
           confirmed_at = Some 10, created_at = 1, updated_at = 11\<rparr>]
   \<and> map confirmed
        (fst (handleConfirmGuest \<lparr>update_fault = None, client_now = 10, update_now = 11\<rparr>
           (js ''A1'')
           (fst (handleConfirmGuest \<lparr>update_fault = None, client_now = 10, update_now = 11\<rparr>
                  (js ''A1'')
                  ([\<lparr>id_uuid = js ''u1'', guest_id = js ''A1'',
                     guest_data = [(js ''Nombre'', JStr (js ''Ana''))], confirmed = False,
                     confirmed_at = None, created_at = 1, updated_at = 1\<rparr>], {})),
            fst (snd (handleConfirmGuest
                  \<lparr>update_fault = None, client_now = 10, update_now = 11\<rparr>
                  (js ''A1'')
                  ([\<lparr>id_uuid = js ''u1'', guest_id = js ''A1'',
                     guest_data = [(js ''Nombre'', JStr (js ''Ana''))], confirmed = False,
                     confirmed_at = None, created_at = 1, updated_at = 1\<rparr>], {}))))))
       = [False]"
proof -
  let ?env = "\<lparr>update_fault = None, client_now = 10, update_now = 11\<rparr>"
  let ?t = "[\<lparr>id_uuid = js ''u1'', guest_id = js ''A1'',
              guest_data = [(js ''Nombre'', JStr (js ''Ana''))], confirmed = False,
              confirmed_at = None, created_at = 1, updated_at = 1\<rparr>]"
  have h1: "update_fault ?env = None" by simp
  have h3: "\<forall>g\<in>set ?t. guest_id g = js ''A1'' \<longrightarrow> (confirmed g \<longleftrightarrow> js ''A1'' \<in> {})"
    by simp
  note inst = toggleConfirmed_flips_in_sync [OF h1 h1 h3, unfolded Let_def]
  from inst have a: "fst (handleConfirmGuest ?env (js ''A1'') (?t, {}))
      = [\<lparr>id_uuid = js ''u1'', guest_id = js ''A1'',
           guest_data = [(js ''Nombre'', JStr (js ''Ana''))], confirmed = True,
           confirmed_at = Some 10, created_at = 1, updated_at = 11\<rparr>]"
    by simp
  from inst have b: "map confirmed
        (fst (handleConfirmGuest ?env (js ''A1'')
           (fst (handleConfirmGuest ?env (js ''A1'') (?t, {})),
            fst (snd (handleConfirmGuest ?env (js ''A1'') (?t, {}))))))
      = map confirmed ?t"
    by blast
  have c: "map confirmed ?t = [False]" by simp
  from h1 a b show ?thesis unfolding c by simp
qed

text \<open>
  Claim C7 as it is worded fails when \<open>confirmedGuests\<close> lags behind the table. The
  record A1 is confirmed in the store (another client confirmed it) and the set of
  this client is still empty: the toggle writes \<open>confirmed = true\<close> again, so the flag
  is not flipped, and after the second toggle the record is unconfirmed, not back at
  its original value.
\<close>

theorem toggleConfirmed_stale_set_counterexample:
  "map confirmed
      (fst (handleConfirmGuest \<lparr>update_fault = None, client_now = 10, update_now = 11\<rparr>
         (js ''A1'')
         ([\<lparr>id_uuid = js ''u1'', guest_id = js ''A1'',
            guest_data = [(js ''Nombre'', JStr (js ''Ana''))], confirmed = True,
            confirmed_at = Some 3, created_at = 1, updated_at = 3\<rparr>], {})))
     = [True]
   \<and> map confirmed
        (fst (handleConfirmGuest \<lparr>update_fault = None, client_now = 20, update_now = 21\<rparr>
           (js ''A1'')
           (fst (handleConfirmGuest \<lparr>update_fault = None, client_now = 10, update_now = 11\<rparr>
                  (js ''A1'')
                  ([\<lparr>id_uuid = js ''u1'', guest_id = js ''A1'',
                     guest_data = [(js ''Nombre'', JStr (js ''Ana''))], confirmed = True,
                     confirmed_at = Some 3, created_at = 1, updated_at = 3\<rparr>], {})),
            fst (snd (handleConfirmGuest
                  \<lparr>update_fault = None, client_now = 10, update_now = 11\<rparr>
                  (js ''A1'')
                  ([\<lparr>id_uuid = js ''u1'', guest_id = js ''A1'',
                     guest_data = [(js ''Nombre'', JStr (js ''Ana''))], confirmed = True,
                     confirmed_at = Some 3, created_at = 1, updated_at = 3\<rparr>], {}))))))
     = [False]"
  by (simp add: toggle_eval)

section \<open>Toggle of an identifier without record\<close>

lemma write_no_match:
  assumes "\<forall>g\<in>set t. guest_id g \<noteq> i"
  shows "map (\<lambda>g. if guest_id g = i
                  then g\<lparr>confirmed := c, confirmed_at := a, updated_at := n\<rparr> else g) t = t"
proof (rule map_idI)
  fix g
  assume "g \<in> set t"
  with assms have "guest_id g \<noteq> i" by blast
  then show "(if guest_id g = i
              then g\<lparr>confirmed := c, confirmed_at := a, updated_at := n\<rparr> else g) = g"
    by simp
qed

text \<open>
  Claim C8, as the code has it. Let no record of the table carry \<open>guestId\<close>. When the
  update request succeeds, nothing fails: an update that matches no row is not an
  error, the table is unchanged, the toast is the success toast, and the identifier
  is flipped in \<open>confirmedGuests\<close>. Only when the request itself fails is the toast
  "Error al actualizar" shown, and then neither the table nor the set changes.
\<close>

theorem toggle_without_record:
  assumes "\<forall>g\<in>set t. guest_id g \<noteq> guestId"
  shows "(update_fault env = None \<longrightarrow>
            fst (handleConfirmGuest env guestId (t, cg)) = t
            \<and> fst (snd (handleConfirmGuest env guestId (t, cg)))
                = (if guestId \<in> cg then cg - {guestId} else insert guestId cg)
            \<and> variant (snd (snd (handleConfirmGuest env guestId (t, cg)))) = DefaultVariant)
       \<and> (update_fault env \<noteq> None \<longrightarrow>
            fst (handleConfirmGuest env guestId (t, cg)) = t
            \<and> fst (snd (handleConfirmGuest env guestId (t, cg))) = cg
            \<and> snd (snd (handleConfirmGuest env guestId (t, cg)))
                = \<lparr>title = js ''Error al actualizar'',
                   description = js ''No se pudo actualizar el estado del invitado.'',
                   variant = Destructive\<rparr>)"
proof (cases "update_fault env")
  case None
  show ?thesis
    unfolding toggle_ok [OF None] write_no_match [OF assms] using None by simp
next
  case (Some e)
  show ?thesis
    unfolding toggle_failed [OF Some] using Some by simp
qed

text \<open>
  The theorem on an empty table with the identifier guest_0: with a working request the
  set gains guest_0, with a failing request nothing changes.
\<close>

theorem toggle_without_record_witness:
  "set ([]::guest list) = {}
   \<and> update_fault \<lparr>update_fault = None, client_now = 10, update_now = 11\<rparr> = None
   \<and> fst (snd (handleConfirmGuest \<lparr>update_fault = None, client_now = 10, update_now = 11\<rparr>
          (js ''guest_0'') ([], {}))) = {js ''guest_0''}
   \<and> update_fault \<lparr>update_fault = Some (DbError (js ''Failed to fetch'')), client_now = 10,
                     update_now = 11\<rparr> \<noteq> None
   \<and> fst (snd (handleConfirmGuest
          \<lparr>update_fault = Some (DbError (js ''Failed to fetch'')), client_now = 10,
           update_now = 11\<rparr> (js ''guest_0'') ([], {}))) = {}"
proof -
  let ?ok = "\<lparr>update_fault = None, client_now = 10, update_now = 11\<rparr>"
  let ?bad = "\<lparr>update_fault = Some (DbError (js ''Failed to fetch'')), client_now = 10,
               update_now = 11\<rparr>"
  have h: "\<forall>g\<in>set ([]::guest list). guest_id g \<noteq> js ''guest_0''" by simp
  have o: "update_fault ?ok = None" and b: "update_fault ?bad \<noteq> None" by simp_all
  from o toggle_without_record [OF h, of ?ok "{}"]
  have r1: "fst (snd (handleConfirmGuest ?ok (js ''guest_0'') ([], {})))
      = (if js ''guest_0'' \<in> {} then {} - {js ''guest_0''} else insert (js ''guest_0'') {})"
    by blast
  from b toggle_without_record [OF h, of ?bad "{}"]
  have r2: "fst (snd (handleConfirmGuest ?bad (js ''guest_0'') ([], {}))) = {}"
    by blast
  have e: "(if js ''guest_0'' \<in> {} then {} - {js ''guest_0''} else insert (js ''guest_0'') {})
      = {js ''guest_0''}" by simp
  from o b r1 r2 show ?thesis unfolding e by simp
qed

text \<open>
  Claim C8 as it is worded expects a failure. With an empty table (the rows displayed
  are a local batch, whose first row has the identifier guest_0) the toggle of guest_0
  reports "Invitado confirmado" and adds guest_0 to \<open>confirmedGuests\<close>.
\<close>

theorem toggle_without_record_counterexample:
  "handleConfirmGuest \<lparr>update_fault = None, client_now = 10, update_now = 11\<rparr>
      (js ''guest_0'') ([], {})
    = ([], {js ''guest_0''},
       \<lparr>title = js ''Invitado confirmado'',
        description = js ''El invitado guest_0 ha sido confirmado.'',
        variant = DefaultVariant\<rparr>)"
  by (simp add: toggle_eval)

section \<open>Properties of the search\<close>

lemma valueMatches_iff:
  "valueMatches searchTerm v \<longleftrightarrow>
     (\<exists>s. toString v = Some s \<and> (\<exists>pre post. toLowerCase s = pre @ toLowerCase searchTerm @ post))"
  by (simp add: valueMatches_def str_includes_iff split: option.splits)

lemma row_matches_iff:
  "list_ex (valueMatches searchTerm) (map snd r) \<longleftrightarrow>
     (\<exists>(k, v)\<in>set r. \<exists>s. toString v = Some s
        \<and> (\<exists>pre post. toLowerCase s = pre @ toLowerCase searchTerm @ post))"
  unfolding list_ex_iff valueMatches_iff by force

lemma trim_nonempty: "trim s \<noteq> [] \<Longrightarrow> s \<noteq> []"
  by (auto simp: trim_def)

lemma trim_empty: "trim [] = []"
  by (simp add: trim_def)

text \<open>
  Claim C9, as the code has it. A term that is empty after trimming (the empty term,
  or white space only) returns all rows. For any other term the result is the rows,
  in order, of which some value has a string that contains the term, both lower-cased;
  \<open>null\<close> and \<open>undefined\<close> have no string. In the grid component an empty data set
  renders the card "no guests loaded", and a term that is not blank and leaves no row
  of a non-empty data set renders the card "guest not found", a different state.
\<close>

theorem search_filter_rule:
  "filteredData rows [] = rows
   \<and> (trim searchTerm = [] \<longrightarrow> filteredData rows searchTerm = rows)
   \<and> (trim searchTerm \<noteq> [] \<longrightarrow>
        filteredData rows searchTerm
          = filter (\<lambda>r. \<exists>(k, v)\<in>set r. \<exists>s. toString v = Some s
                \<and> (\<exists>pre post. toLowerCase s = pre @ toLowerCase searchTerm @ post)) rows)
   \<and> (trim searchTerm \<noteq> [] \<longrightarrow>
        (r \<in> set (filteredData rows searchTerm) \<longleftrightarrow>
           r \<in> set rows
           \<and> (\<exists>(k, v)\<in>set r. \<exists>s. toString v = Some s
                \<and> (\<exists>pre post. toLowerCase s = pre @ toLowerCase searchTerm @ post))))
   \<and> (currentData supabaseGuests data = [] \<longrightarrow>
        render supabaseGuests data searchTerm = NoGuestsLoaded)
   \<and> (currentData supabaseGuests data \<noteq> [] \<and> trim searchTerm \<noteq> []
        \<and> filteredData (currentData supabaseGuests data) searchTerm = []
        \<longrightarrow> render supabaseGuests data searchTerm = GuestNotFound searchTerm)
   \<and> GuestNotFound searchTerm \<noteq> NoGuestsLoaded"
proof (intro conjI impI)
  show "filteredData rows [] = rows" by (simp add: filteredData_def trim_empty)
next
  assume "trim searchTerm = []"
  then show "filteredData rows searchTerm = rows" by (simp add: filteredData_def)
next
  assume "trim searchTerm \<noteq> []"
  then show "filteredData rows searchTerm
          = filter (\<lambda>r. \<exists>(k, v)\<in>set r. \<exists>s. toString v = Some s
                \<and> (\<exists>pre post. toLowerCase s = pre @ toLowerCase searchTerm @ post)) rows"
    by (simp add: filteredData_def row_matches_iff)
next
  assume "trim searchTerm \<noteq> []"
  then show "r \<in> set (filteredData rows searchTerm) \<longleftrightarrow>
           r \<in> set rows
           \<and> (\<exists>(k, v)\<in>set r. \<exists>s. toString v = Some s
                \<and> (\<exists>pre post. toLowerCase s = pre @ toLowerCase searchTerm @ post))"
    by (simp add: filteredData_def row_matches_iff)
next
  assume "currentData supabaseGuests data = []"
  then show "render supabaseGuests data searchTerm = NoGuestsLoaded"
    by (simp add: render_def)
next
  assume a: "currentData supabaseGuests data \<noteq> [] \<and> trim searchTerm \<noteq> []
        \<and> filteredData (currentData supabaseGuests data) searchTerm = []"
  then have "searchTerm \<noteq> []" using trim_nonempty by blast
  with a show "render supabaseGuests data searchTerm = GuestNotFound searchTerm"
    by (simp add: render_def)
next
  show "GuestNotFound searchTerm \<noteq> NoGuestsLoaded" by simp
qed

lemmas search_eval = filteredData_def valueMatches_def currentData_def render_def augment_def
  trim_def isWhiteSpace_def toLowerCase_def toLowerUnit_def js_def

text \<open>
  The theorem at the local row Nombre = Ana: the term AN keeps the row, the term x leaves
  nothing and the grid renders "guest not found".
\<close>

theorem search_filter_rule_witness:
  "trim (js ''AN'') \<noteq> []
   \<and> [(js ''Nombre'', JStr (js ''Ana''))]
        \<in> set (filteredData [[(js ''Nombre'', JStr (js ''Ana''))]] (js ''AN''))
   \<and> currentData [] [[(js ''Nombre'', JStr (js ''Ana''))]] \<noteq> []
   \<and> trim (js ''x'') \<noteq> []
   \<and> filteredData (currentData [] [[(js ''Nombre'', JStr (js ''Ana''))]]) (js ''x'') = []
   \<and> render [] [[(js ''Nombre'', JStr (js ''Ana''))]] (js ''x'') = GuestNotFound (js ''x'')
   \<and> trim (js ''  '') = []
   \<and> filteredData [[(js ''Nombre'', JStr (js ''Ana''))]] (js ''  '')
       = [[(js ''Nombre'', JStr (js ''Ana''))]]"
proof -
  let ?r = "[(js ''Nombre'', JStr (js ''Ana''))]"
  have t1: "trim (js ''AN'') \<noteq> []" and t2: "trim (js ''x'') \<noteq> []"
    and t3: "trim (js ''  '') = []"
    by (simp_all add: trim_def isWhiteSpace_def js_def)
  have m: "?r \<in> set [?r] \<and> (\<exists>(k, v)\<in>set ?r. \<exists>s. toString v = Some s
      \<and> (\<exists>pre post. toLowerCase s = pre @ toLowerCase (js ''AN'') @ post))"
  proof -
    have "toLowerCase (js ''Ana'') = [] @ toLowerCase (js ''AN'') @ js ''a''"
      by (simp add: toLowerCase_def toLowerUnit_def js_def)
    then show ?thesis by fastforce
  qed
  from t1 m search_filter_rule [of "[?r]" "js ''AN''" ?r]
  have a: "?r \<in> set (filteredData [?r] (js ''AN''))" by blast
  have c: "currentData [] [?r] \<noteq> []" by (simp add: currentData_def)
  have e: "filteredData (currentData [] [?r]) (js ''x'') = []"
    by (simp add: search_eval)
  from c t2 e search_filter_rule [of _ "js ''x''" _ "[]" "[?r]"]
  have n: "render [] [?r] (js ''x'') = GuestNotFound (js ''x'')" by blast
  from t3 search_filter_rule [of "[?r]" "js ''  ''"]
  have w: "filteredData [?r] (js ''  '') = [?r]" by blast
  from t1 a c t2 e n t3 w show ?thesis by blast
qed

text \<open>
  Claim C9 as it is worded makes containment of the term the condition for every term.
  The term of one space is contained in no value of the row Nombre = Ana, and the row
  is returned all the same: a blank term does not filter.
\<close>

theorem search_blank_term_counterexample:
  "filteredData [[(js ''Nombre'', JStr (js ''Ana''))]] (js '' '')
      = [[(js ''Nombre'', JStr (js ''Ana''))]]
   \<and> \<not> list_ex (valueMatches (js '' '')) (map snd [(js ''Nombre'', JStr (js ''Ana''))])
   \<and> \<not> str_includes (toLowerCase (js ''Ana'')) (toLowerCase (js '' ''))"
  by (simp add: search_eval)

section \<open>Internal fields in the search\<close>

lemma update_holds_value: "(k, v) \<in> set (AList.update k v al)"
  by (induction al) auto

lemma update_keeps_other:
  "(k, v) \<in> set al \<Longrightarrow> k \<noteq> k' \<Longrightarrow> (k, v) \<in> set (AList.update k' v' al)"
  by (induction al) auto

lemma augment_has_supabase_id: "(js ''_supabase_id'', JStr (id_uuid g)) \<in> set (augment g)"
  unfolding augment_def
  by (rule update_keeps_other [OF update_holds_value]) (simp add: js_def)

lemma augment_has_guest_id: "(js ''_guest_id'', JStr (guest_id g)) \<in> set (augment g)"
  unfolding augment_def by (rule update_holds_value)

lemma value_in_row_matches:
  assumes "(k, JStr s) \<in> set r" and "str_includes (toLowerCase s) (toLowerCase searchTerm)"
  shows "list_ex (valueMatches searchTerm) (map snd r)"
proof -
  from assms(2) have "valueMatches searchTerm (JStr s)" by (simp add: valueMatches_def)
  moreover from assms(1) have "JStr s \<in> set (map snd r)" by force
  ultimately show ?thesis unfolding list_ex_iff by blast
qed

lemma update_within: "set (AList.update k v al) \<subseteq> set al \<union> {(k, v)}"
  by (induction al) auto

lemma update_appends: "k \<notin> fst ` set al \<Longrightarrow> AList.update k v al = al @ [(k, v)]"
  by (induction al) auto

lemma internal_keys_differ: "js ''_supabase_id'' \<noteq> js ''_guest_id''"
  by (simp add: js_def)

text \<open>The object built by the spread: the properties of \<open>guest_data\<close>, then the two fields.\<close>

lemma augment_mapping:
  "map_of (augment g)
     = (map_of (guest_data g))
         (js ''_supabase_id'' \<mapsto> JStr (id_uuid g), js ''_guest_id'' \<mapsto> JStr (guest_id g))"
  by (simp add: augment_def update_conv')

lemma augment_keeps_columns:
  assumes "(k, v) \<in> set (guest_data g)"
    and "k \<noteq> js ''_supabase_id''" and "k \<noteq> js ''_guest_id''"
  shows "(k, v) \<in> set (augment g)"
  unfolding augment_def
  by (rule update_keeps_other [OF update_keeps_other [OF assms(1,2)] assms(3)])

lemma augment_within:
  "set (augment g)
     \<subseteq> set (guest_data g)
         \<union> {(js ''_supabase_id'', JStr (id_uuid g)), (js ''_guest_id'', JStr (guest_id g))}"
proof -
  let ?inner = "AList.update (js ''_supabase_id'') (JStr (id_uuid g)) (guest_data g)"
  have "set (augment g) \<subseteq> set ?inner \<union> {(js ''_guest_id'', JStr (guest_id g))}"
    unfolding augment_def by (rule update_within)
  moreover have "set ?inner \<subseteq> set (guest_data g) \<union> {(js ''_supabase_id'', JStr (id_uuid g))}"
    by (rule update_within)
  ultimately show ?thesis by blast
qed

lemma augment_appends:
  assumes "js ''_supabase_id'' \<notin> fst ` set (guest_data g)"
    and "js ''_guest_id'' \<notin> fst ` set (guest_data g)"
  shows "augment g
     = guest_data g
         @ [(js ''_supabase_id'', JStr (id_uuid g)), (js ''_guest_id'', JStr (guest_id g))]"
proof -
  have a: "AList.update (js ''_supabase_id'') (JStr (id_uuid g)) (guest_data g)
      = guest_data g @ [(js ''_supabase_id'', JStr (id_uuid g))]"
    by (rule update_appends [OF assms(1)])
  have "js ''_guest_id''
      \<notin> fst ` set (guest_data g @ [(js ''_supabase_id'', JStr (id_uuid g))])"
    using assms(2) internal_keys_differ by auto
  then have "AList.update (js ''_guest_id'') (JStr (guest_id g))
        (guest_data g @ [(js ''_supabase_id'', JStr (id_uuid g))])
      = (guest_data g @ [(js ''_supabase_id'', JStr (id_uuid g))])
          @ [(js ''_guest_id'', JStr (guest_id g))]"
    by (rule update_appends)
  then show ?thesis unfolding augment_def a by simp
qed

lemma entry_in_row_matches:
  assumes "(k, v) \<in> set r" and "valueMatches searchTerm v"
  shows "list_ex (valueMatches searchTerm) (map snd r)"
proof -
  from assms(1) have "v \<in> set (map snd r)" by force
  with assms(2) show ?thesis unfolding list_ex_iff by blast
qed

lemma internal_only_example:
  "filteredData
      (currentData
         [\<lparr>id_uuid = js ''7f3a'', guest_id = js ''guest_1'',
           guest_data = [(js ''Nombre'', JStr (js ''Ana''))], confirmed = False,
           confirmed_at = None, created_at = 1, updated_at = 1\<rparr>] [])
      (js ''7f'')
     = [[(js ''Nombre'', JStr (js ''Ana'')), (js ''_supabase_id'', JStr (js ''7f3a'')),
         (js ''_guest_id'', JStr (js ''guest_1''))]]
   \<and> \<not> list_ex (valueMatches (js ''7f'')) (map snd [(js ''Nombre'', JStr (js ''Ana''))])
   \<and> filteredData
      (currentData
         [\<lparr>id_uuid = js ''7f3a'', guest_id = js ''guest_1'',
           guest_data = [(js ''Nombre'', JStr (js ''Ana''))], confirmed = False,
           confirmed_at = None, created_at = 1, updated_at = 1\<rparr>] [])
      (js ''guest'')
     = [[(js ''Nombre'', JStr (js ''Ana'')), (js ''_supabase_id'', JStr (js ''7f3a'')),
         (js ''_guest_id'', JStr (js ''guest_1''))]]
   \<and> \<not> list_ex (valueMatches (js ''guest'')) (map snd [(js ''Nombre'', JStr (js ''Ana''))])"
  by (simp add: search_eval)

text \<open>
  Claim C10. When \<open>supabaseGuests\<close> holds at least one row, the rows displayed and
  searched are the stored rows, each the object of its \<open>guest_data\<close> with the
  properties \<open>_supabase_id\<close> (the primary key) and \<open>_guest_id\<close> set on it: as a
  mapping it is \<open>guest_data\<close> with these two properties set; every property of
  \<open>guest_data\<close> under another name is a property of it, it has no property beyond
  those and the two, and when \<open>guest_data\<close> has neither name it is \<open>guest_data\<close>
  followed by the two. The filter tests every value of that object. So a term that is
  not blank keeps a stored row when a column of its \<open>guest_data\<close> matches, and also
  when the term is contained in the lower-cased primary key or identifier; a row that
  is kept matches in one of these ways. There is a data set in which such a term
  occurs in no value of \<open>guest_data\<close> and the row is found all the same.
\<close>

theorem search_scans_internal_fields:
  assumes "length supabaseGuests > 0"
  shows "currentData supabaseGuests data = map augment supabaseGuests
     \<and> (\<forall>g\<in>set supabaseGuests.
           map_of (augment g)
             = (map_of (guest_data g))
                 (js ''_supabase_id'' \<mapsto> JStr (id_uuid g),
                  js ''_guest_id'' \<mapsto> JStr (guest_id g)))
     \<and> (\<forall>g\<in>set supabaseGuests. \<forall>k v.
           (k, v) \<in> set (guest_data g) \<and> k \<noteq> js ''_supabase_id'' \<and> k \<noteq> js ''_guest_id''
           \<longrightarrow> (k, v) \<in> set (augment g))
     \<and> (\<forall>g\<in>set supabaseGuests.
           set (augment g)
             \<subseteq> set (guest_data g)
                 \<union> {(js ''_supabase_id'', JStr (id_uuid g)),
                     (js ''_guest_id'', JStr (guest_id g))})
     \<and> (\<forall>g\<in>set supabaseGuests.
           js ''_supabase_id'' \<notin> fst ` set (guest_data g)
           \<and> js ''_guest_id'' \<notin> fst ` set (guest_data g)
           \<longrightarrow> augment g
                 = guest_data g
                     @ [(js ''_supabase_id'', JStr (id_uuid g)),
                        (js ''_guest_id'', JStr (guest_id g))])
     \<and> (\<forall>g\<in>set supabaseGuests.
           (js ''_supabase_id'', JStr (id_uuid g)) \<in> set (augment g)
           \<and> (js ''_guest_id'', JStr (guest_id g)) \<in> set (augment g))
     \<and> (\<forall>r. r \<in> set (filteredData (currentData supabaseGuests data) searchTerm) \<longleftrightarrow>
           r \<in> set (map augment supabaseGuests)
           \<and> (trim searchTerm = [] \<or> list_ex (valueMatches searchTerm) (map snd r)))
     \<and> (\<forall>g\<in>set supabaseGuests.
           trim searchTerm \<noteq> []
           \<and> (str_includes (toLowerCase (id_uuid g)) (toLowerCase searchTerm)
               \<or> str_includes (toLowerCase (guest_id g)) (toLowerCase searchTerm))
           \<longrightarrow> augment g \<in> set (filteredData (currentData supabaseGuests data) searchTerm))
     \<and> (\<forall>g\<in>set supabaseGuests. \<forall>k v.
           trim searchTerm \<noteq> [] \<and> (k, v) \<in> set (guest_data g)
           \<and> k \<noteq> js ''_supabase_id'' \<and> k \<noteq> js ''_guest_id'' \<and> valueMatches searchTerm v
           \<longrightarrow> augment g \<in> set (filteredData (currentData supabaseGuests data) searchTerm))
     \<and> (\<forall>g\<in>set supabaseGuests.
           trim searchTerm \<noteq> []
           \<and> augment g \<in> set (filteredData (currentData supabaseGuests data) searchTerm)
           \<longrightarrow> (\<exists>(k, v)\<in>set (guest_data g). valueMatches searchTerm v)
               \<or> str_includes (toLowerCase (id_uuid g)) (toLowerCase searchTerm)
               \<or> str_includes (toLowerCase (guest_id g)) (toLowerCase searchTerm))
     \<and> (\<exists>g term. \<not> list_ex (valueMatches term) (map snd (guest_data g))
           \<and> augment g \<in> set (filteredData (currentData [g] []) term))"
proof (intro conjI)
  from assms show c: "currentData supabaseGuests data = map augment supabaseGuests"
    by (simp add: currentData_def)
  show "\<forall>g\<in>set supabaseGuests.
           map_of (augment g)
             = (map_of (guest_data g))
                 (js ''_supabase_id'' \<mapsto> JStr (id_uuid g),
                  js ''_guest_id'' \<mapsto> JStr (guest_id g))"
    using augment_mapping by blast
  show "\<forall>g\<in>set supabaseGuests. \<forall>k v.
           (k, v) \<in> set (guest_data g) \<and> k \<noteq> js ''_supabase_id'' \<and> k \<noteq> js ''_guest_id''
           \<longrightarrow> (k, v) \<in> set (augment g)"
    using augment_keeps_columns by blast
  show "\<forall>g\<in>set supabaseGuests.
           set (augment g)
             \<subseteq> set (guest_data g)
                 \<union> {(js ''_supabase_id'', JStr (id_uuid g)),
                     (js ''_guest_id'', JStr (guest_id g))}"
    using augment_within by blast
  show "\<forall>g\<in>set supabaseGuests.
           js ''_supabase_id'' \<notin> fst ` set (guest_data g)
           \<and> js ''_guest_id'' \<notin> fst ` set (guest_data g)
           \<longrightarrow> augment g
                 = guest_data g
                     @ [(js ''_supabase_id'', JStr (id_uuid g)),
                        (js ''_guest_id'', JStr (guest_id g))]"
    using augment_appends by blast
  show "\<forall>g\<in>set supabaseGuests.
           (js ''_supabase_id'', JStr (id_uuid g)) \<in> set (augment g)
           \<and> (js ''_guest_id'', JStr (guest_id g)) \<in> set (augment g)"
    using augment_has_supabase_id augment_has_guest_id by blast
  show f: "\<forall>r. r \<in> set (filteredData (currentData supabaseGuests data) searchTerm) \<longleftrightarrow>
           r \<in> set (map augment supabaseGuests)
           \<and> (trim searchTerm = [] \<or> list_ex (valueMatches searchTerm) (map snd r))"
    unfolding c by (auto simp: filteredData_def)
  show "\<forall>g\<in>set supabaseGuests.
           trim searchTerm \<noteq> []
           \<and> (str_includes (toLowerCase (id_uuid g)) (toLowerCase searchTerm)
               \<or> str_includes (toLowerCase (guest_id g)) (toLowerCase searchTerm))
           \<longrightarrow> augment g \<in> set (filteredData (currentData supabaseGuests data) searchTerm)"
  proof (intro ballI impI)
    fix g
    assume g: "g \<in> set supabaseGuests"
      and a: "trim searchTerm \<noteq> []
           \<and> (str_includes (toLowerCase (id_uuid g)) (toLowerCase searchTerm)
               \<or> str_includes (toLowerCase (guest_id g)) (toLowerCase searchTerm))"
    from a have "list_ex (valueMatches searchTerm) (map snd (augment g))"
      using value_in_row_matches [OF augment_has_supabase_id]
        value_in_row_matches [OF augment_has_guest_id] by blast
    with g a show "augment g \<in> set (filteredData (currentData supabaseGuests data) searchTerm)"
      unfolding c by (simp add: filteredData_def)
  qed
  show "\<forall>g\<in>set supabaseGuests. \<forall>k v.
           trim searchTerm \<noteq> [] \<and> (k, v) \<in> set (guest_data g)
           \<and> k \<noteq> js ''_supabase_id'' \<and> k \<noteq> js ''_guest_id'' \<and> valueMatches searchTerm v
           \<longrightarrow> augment g \<in> set (filteredData (currentData supabaseGuests data) searchTerm)"
  proof (intro ballI allI impI)
    fix g k v
    assume g: "g \<in> set supabaseGuests"
      and a: "trim searchTerm \<noteq> [] \<and> (k, v) \<in> set (guest_data g)
           \<and> k \<noteq> js ''_supabase_id'' \<and> k \<noteq> js ''_guest_id'' \<and> valueMatches searchTerm v"
    from a have kv: "(k, v) \<in> set (augment g)" using augment_keeps_columns by blast
    from a have vm: "valueMatches searchTerm v" by blast
    from kv vm have "list_ex (valueMatches searchTerm) (map snd (augment g))"
      by (rule entry_in_row_matches)
    with g a show "augment g \<in> set (filteredData (currentData supabaseGuests data) searchTerm)"
      unfolding c by (simp add: filteredData_def)
  qed
  show "\<forall>g\<in>set supabaseGuests.
           trim searchTerm \<noteq> []
           \<and> augment g \<in> set (filteredData (currentData supabaseGuests data) searchTerm)
           \<longrightarrow> (\<exists>(k, v)\<in>set (guest_data g). valueMatches searchTerm v)
               \<or> str_includes (toLowerCase (id_uuid g)) (toLowerCase searchTerm)
               \<or> str_includes (toLowerCase (guest_id g)) (toLowerCase searchTerm)"
  proof (intro ballI impI)
    fix g
    assume a: "trim searchTerm \<noteq> []
           \<and> augment g \<in> set (filteredData (currentData supabaseGuests data) searchTerm)"
    with f have "list_ex (valueMatches searchTerm) (map snd (augment g))" by blast
    then obtain k v where kv: "(k, v) \<in> set (augment g)" and m: "valueMatches searchTerm v"
      unfolding list_ex_iff by auto
    from kv augment_within [of g]
    consider "(k, v) \<in> set (guest_data g)"
      | "v = JStr (id_uuid g)" | "v = JStr (guest_id g)" by auto
    then show "(\<exists>(k, v)\<in>set (guest_data g). valueMatches searchTerm v)
               \<or> str_includes (toLowerCase (id_uuid g)) (toLowerCase searchTerm)
               \<or> str_includes (toLowerCase (guest_id g)) (toLowerCase searchTerm)"
    proof cases
      case 1
      with m show ?thesis by blast
    next
      case 2
      with m show ?thesis by (simp add: valueMatches_def)
    next
      case 3
      with m show ?thesis by (simp add: valueMatches_def)
    qed
  qed
  let ?g = "\<lparr>id_uuid = js ''7f3a'', guest_id = js ''guest_1'',
           guest_data = [(js ''Nombre'', JStr (js ''Ana''))], confirmed = False,
           confirmed_at = None, created_at = 1, updated_at = 1\<rparr>"
  have "\<not> list_ex (valueMatches (js ''7f'')) (map snd (guest_data ?g))
      \<and> augment ?g \<in> set (filteredData (currentData [?g] []) (js ''7f''))"
    by (simp add: search_eval)
  then show "\<exists>g term. \<not> list_ex (valueMatches term) (map snd (guest_data g))
           \<and> augment g \<in> set (filteredData (currentData [g] []) term)"
    by blast
qed

text \<open>
  The theorem at a store with the one record Nombre = Ana, primary key 7f3a, identifier
  guest_1: the row displayed is Nombre = Ana followed by the two fields; the term ana
  finds it by its column, and the term 7f, which is in no column, finds it by its
  primary key.
\<close>

theorem search_scans_internal_fields_witness:
  "length [\<lparr>id_uuid = js ''7f3a'', guest_id = js ''guest_1'',
            guest_data = [(js ''Nombre'', JStr (js ''Ana''))], confirmed = False,
            confirmed_at = None, created_at = 1, updated_at = 1\<rparr>] > 0
   \<and> currentData
        [\<lparr>id_uuid = js ''7f3a'', guest_id = js ''guest_1'',
          guest_data = [(js ''Nombre'', JStr (js ''Ana''))], confirmed = False,
          confirmed_at = None, created_at = 1, updated_at = 1\<rparr>]
        [[(js ''Nombre'', JStr (js ''Luis''))]]
       = [[(js ''Nombre'', JStr (js ''Ana'')), (js ''_supabase_id'', JStr (js ''7f3a'')),
           (js ''_guest_id'', JStr (js ''guest_1''))]]
   \<and> trim (js ''ana'') \<noteq> []
   \<and> valueMatches (js ''ana'') (JStr (js ''Ana''))
   \<and> augment \<lparr>id_uuid = js ''7f3a'', guest_id = js ''guest_1'',
            guest_data = [(js ''Nombre'', JStr (js ''Ana''))], confirmed = False,
            confirmed_at = None, created_at = 1, updated_at = 1\<rparr>
       \<in> set (filteredData
            (currentData
               [\<lparr>id_uuid = js ''7f3a'', guest_id = js ''guest_1'',
                 guest_data = [(js ''Nombre'', JStr (js ''Ana''))], confirmed = False,
                 confirmed_at = None, created_at = 1, updated_at = 1\<rparr>]
               [[(js ''Nombre'', JStr (js ''Luis''))]])
            (js ''ana''))
   \<and> trim (js ''7f'') \<noteq> []
   \<and> str_includes (toLowerCase (js ''7f3a'')) (toLowerCase (js ''7f''))
   \<and> \<not> list_ex (valueMatches (js ''7f'')) (map snd [(js ''Nombre'', JStr (js ''Ana''))])
   \<and> augment \<lparr>id_uuid = js ''7f3a'', guest_id = js ''guest_1'',
            guest_data = [(js ''Nombre'', JStr (js ''Ana''))], confirmed = False,
            confirmed_at = None, created_at = 1, updated_at = 1\<rparr>
       \<in> set (filteredData
            (currentData
               [\<lparr>id_uuid = js ''7f3a'', guest_id = js ''guest_1'',
                 guest_data = [(js ''Nombre'', JStr (js ''Ana''))], confirmed = False,
                 confirmed_at = None, created_at = 1, updated_at = 1\<rparr>]
               [[(js ''Nombre'', JStr (js ''Luis''))]])
            (js ''7f''))"
proof -
  let ?g = "\<lparr>id_uuid = js ''7f3a'', guest_id = js ''guest_1'',
           guest_data = [(js ''Nombre'', JStr (js ''Ana''))], confirmed = False,
           confirmed_at = None, created_at = 1, updated_at = 1\<rparr>"
  let ?local = "[[(js ''Nombre'', JStr (js ''Luis''))]]"
  have h: "length [?g] > 0" by simp
  have m: "?g \<in> set [?g]" by simp
  have keys: "js ''_supabase_id'' \<notin> fst ` set (guest_data ?g)
      \<and> js ''_guest_id'' \<notin> fst ` set (guest_data ?g)"
    by (simp add: js_def)
  have col: "(js ''Nombre'', JStr (js ''Ana'')) \<in> set (guest_data ?g)
      \<and> js ''Nombre'' \<noteq> js ''_supabase_id'' \<and> js ''Nombre'' \<noteq> js ''_guest_id''"
    by (simp add: js_def)
  have t1: "trim (js ''ana'') \<noteq> []" and t2: "trim (js ''7f'') \<noteq> []"
    by (simp_all add: trim_def isWhiteSpace_def js_def)
  have v: "valueMatches (js ''ana'') (JStr (js ''Ana''))"
    by (simp add: valueMatches_def toLowerCase_def toLowerUnit_def js_def)
  have i: "str_includes (toLowerCase (id_uuid ?g)) (toLowerCase (js ''7f''))"
    by (simp add: toLowerCase_def toLowerUnit_def js_def)
  have n: "\<not> list_ex (valueMatches (js ''7f'')) (map snd [(js ''Nombre'', JStr (js ''Ana''))])"
    by (simp add: valueMatches_def toLowerCase_def toLowerUnit_def js_def)
  note by_column = search_scans_internal_fields [OF h, of ?local "js ''ana''"]
  note by_key = search_scans_internal_fields [OF h, of ?local "js ''7f''"]
  from by_column have cur: "currentData [?g] ?local = map augment [?g]" by blast
  from m keys by_column
  have shape: "augment ?g
      = guest_data ?g
          @ [(js ''_supabase_id'', JStr (id_uuid ?g)), (js ''_guest_id'', JStr (guest_id ?g))]"
    by blast
  have rows: "currentData [?g] ?local
      = [[(js ''Nombre'', JStr (js ''Ana'')), (js ''_supabase_id'', JStr (js ''7f3a'')),
          (js ''_guest_id'', JStr (js ''guest_1''))]]"
    unfolding cur using shape by simp
  from m t1 col v by_column
  have a: "augment ?g \<in> set (filteredData (currentData [?g] ?local) (js ''ana''))"
    by blast
  from m t2 i by_key
  have b: "augment ?g \<in> set (filteredData (currentData [?g] ?local) (js ''7f''))"
    by blast
  have i': "str_includes (toLowerCase (js ''7f3a'')) (toLowerCase (js ''7f''))"
    using i by simp
  from h rows t1 v a t2 i' n b show ?thesis by blast
qed

end
